theory Spec2Isabelle
  imports Main
begin

section \<open>Python strings\<close>

text \<open>
  Text is a list of characters. A character stands for a code point below 256
  (Latin-1), so that \<open>length\<close> counts what Python's \<open>len\<close> counts on such text.
\<close>

definition LF :: char where
  "LF = CHR 0x0A"

definition CR :: char where
  "CR = CHR 0x0D"

text \<open>\<open>s.endswith(suffix)\<close>.\<close>

definition endswith :: "string \<Rightarrow> string \<Rightarrow> bool" where
  "endswith s suf = (length suf \<le> length s \<and> drop (length s - length suf) s = suf)"

text \<open>\<open>s.startswith(p)\<close>.\<close>

fun startswith :: "string \<Rightarrow> string \<Rightarrow> bool" where
  "startswith s [] = True"
| "startswith [] (p # ps) = False"
| "startswith (c # cs) (p # ps) = (c = p \<and> startswith cs ps)"

text \<open>\<open>sub in s\<close> on strings: \<open>sub\<close> occurs in \<open>s\<close> as a contiguous run.\<close>

fun str_in :: "string \<Rightarrow> string \<Rightarrow> bool" where
  "str_in sub [] = (sub = [])"
| "str_in sub (c # cs) = (startswith (c # cs) sub \<or> str_in sub cs)"

text \<open>\<open>pattern.replace('*', '.*')\<close>: every star becomes dot-star.\<close>

definition replace_star :: "string \<Rightarrow> string" where
  "replace_star p = concat (map (\<lambda>c. if c = CHR ''*'' then ''.*'' else [c]) p)"

text \<open>
  \<open>s.lower()\<close> on code points below 256: the ASCII capitals and the Latin-1 capitals
  \<open>0xC0..0xDE\<close> (the multiplication sign \<open>0xD7\<close> apart) move up by 32.
\<close>

definition lower_char :: "char \<Rightarrow> char" where
  "lower_char c =
     (let n = of_char c :: nat in
      if (65 \<le> n \<and> n \<le> 90) \<or> (192 \<le> n \<and> n \<le> 222 \<and> n \<noteq> 215)
      then char_of (n + 32) else c)"

definition lower :: "string \<Rightarrow> string" where
  "lower s = map lower_char s"

text \<open>
  \<open>s.splitlines()\<close>: a line ends at a line boundary (\<open>\n\<close>, \<open>\r\<close>, \<open>\r\n\<close>, \<open>\v\<close>,
  \<open>\f\<close>, \<open>\x1c\<close>, \<open>\x1d\<close>, \<open>\x1e\<close>, \<open>\x85\<close>); the boundaries are dropped, and text
  after the last boundary is a line only when it is not empty.
\<close>

definition is_linebreak :: "char \<Rightarrow> bool" where
  "is_linebreak c = (of_char c \<in> {10, 11, 12, 13, 28, 29, 30, 133 :: nat})"

fun splitlines_from :: "string \<Rightarrow> string \<Rightarrow> string list" where
  "splitlines_from cur [] = (if cur = [] then [] else [cur])"
| "splitlines_from cur [c] = (if is_linebreak c then [cur] else [cur @ [c]])"
| "splitlines_from cur (c # d # cs) =
     (if c = CR \<and> d = LF then cur # splitlines_from [] cs
      else if is_linebreak c then cur # splitlines_from [] (d # cs)
      else splitlines_from (cur @ [c]) (d # cs))"

definition splitlines :: "string \<Rightarrow> string list" where
  "splitlines s = splitlines_from [] s"

text \<open>\<open>sep.join(xs)\<close>.\<close>

fun str_join :: "string \<Rightarrow> string list \<Rightarrow> string" where
  "str_join sep [] = []"
| "str_join sep [x] = x"
| "str_join sep (x # y # ys) = x @ sep @ str_join sep (y # ys)"

text \<open>
  \<open>xs[a:b]\<close>: a negative bound counts from the end, and both bounds are clamped to
  the list.
\<close>

definition slice_bound :: "int \<Rightarrow> int \<Rightarrow> nat" where
  "slice_bound n i = nat (if i < 0 then max 0 (n + i) else min n i)"

definition py_slice :: "'a list \<Rightarrow> int \<Rightarrow> int \<Rightarrow> 'a list" where
  "py_slice xs a b =
     (let n = int (length xs); lo = slice_bound n a; hi = slice_bound n b
      in take (hi - lo) (drop lo xs))"

text \<open>
  \<open>s.split(".")\<close>: the runs between the dots, in order; never the empty list.
\<close>

fun split_from :: "char \<Rightarrow> string \<Rightarrow> string \<Rightarrow> string list" where
  "split_from sep cur [] = [cur]"
| "split_from sep cur (c # cs) =
     (if c = sep then cur # split_from sep [] cs else split_from sep (cur @ [c]) cs)"

definition str_split :: "char \<Rightarrow> string \<Rightarrow> string list" where
  "str_split sep s = split_from sep [] s"

text \<open>Python's truth value of an optional string: \<open>None\<close> and \<open>""\<close> are false.\<close>

fun truthy :: "string option \<Rightarrow> bool" where
  "truthy None = False"
| "truthy (Some s) = (s \<noteq> [])"

section \<open>Regular expressions: the fragment the default patterns use\<close>

text \<open>
  \<open>re.match(pattern, s)\<close> for patterns built from literal characters, the dot and the
  star after one of them. The dot matches every character but the newline (no flag is
  passed); \<open>re.match\<close> anchors at the start of \<open>s\<close> only. A pattern with any other
  metacharacter is outside the fragment: \<open>re_parse\<close> gives \<open>None\<close>.
\<close>

datatype re_atom = AnyChar | Lit char

type_synonym regex = "(re_atom \<times> bool) list"

definition re_meta :: "char \<Rightarrow> bool" where
  "re_meta c = (c \<in> set ''^$*+?{}[]|()'' \<or> c = CHR 0x5C)"

fun re_parse :: "string \<Rightarrow> regex option" where
  "re_parse [] = Some []"
| "re_parse (c # cs) =
     (if re_meta c then None
      else (let a = (if c = CHR ''.'' then AnyChar else Lit c) in
            case cs of
              [] \<Rightarrow> Some [(a, False)]
            | d # ds \<Rightarrow>
                if d = CHR ''*'' then map_option (\<lambda>r. (a, True) # r) (re_parse ds)
                else map_option (\<lambda>r. (a, False) # r) (re_parse (d # ds))))"

fun atom_matches :: "re_atom \<Rightarrow> char \<Rightarrow> bool" where
  "atom_matches AnyChar c = (c \<noteq> LF)"
| "atom_matches (Lit l) c = (c = l)"

fun re_match_here :: "regex \<Rightarrow> string \<Rightarrow> bool" where
  "re_match_here [] s = True"
| "re_match_here ((a, False) # r) [] = False"
| "re_match_here ((a, False) # r) (c # cs) = (atom_matches a c \<and> re_match_here r cs)"
| "re_match_here ((a, True) # r) [] = re_match_here r []"
| "re_match_here ((a, True) # r) (c # cs) =
     (re_match_here r (c # cs) \<or> (atom_matches a c \<and> re_match_here ((a, True) # r) cs))"

definition re_match :: "string \<Rightarrow> string \<Rightarrow> bool option" where
  "re_match p s = map_option (\<lambda>r. re_match_here r s) (re_parse p)"

text \<open>
  The program calls the library's \<open>re.match\<close> and tests the result for truth. A regex
  engine is a function \<open>rm\<close> with \<open>rm p s\<close> true when \<open>re.match(p, s)\<close> is a match; it is
  sound when it agrees with the fragment above wherever the fragment speaks.
\<close>

definition sound_engine :: "(string \<Rightarrow> string \<Rightarrow> bool) \<Rightarrow> bool" where
  "sound_engine rm = (\<forall>p s b. re_match p s = Some b \<longrightarrow> rm p s = b)"

definition fragment_engine :: "string \<Rightarrow> string \<Rightarrow> bool" where
  "fragment_engine p s = (re_match p s = Some True)"

section \<open>Syntax trees\<close>

text \<open>
  The nodes of Python's \<open>ast\<close> module that the indexer reads by name, each with its
  fields in the order of \<open>_fields\<close>, and \<open>Other\<close> for every other node class (its class
  name, its line number when the class has one, and its child nodes in iteration order).
  The fields that hold no node and are never read (\<open>type_comment\<close>, \<open>asname\<close>, \<open>level\<close>,
  \<open>kind\<close>, the column offsets) are left out. \<open>Index\<close> is the subscript wrapper of
  Python 3.8 and before; \<open>type_params\<close> is empty before Python 3.12.
\<close>

datatype node =
    Module "node list"
    \<comment> \<open>body\<close>
  | ClassDef int string "node list" "node list" "node list" "node list" "node list"
    \<comment> \<open>lineno, name, bases, keywords, body, decorator_list, type_params\<close>
  | FunctionDef int string node "node list" "node list" "node option" "node list"
    \<comment> \<open>lineno, name, args, body, decorator_list, returns, type_params\<close>
  | Arguments "node list" "node list" "node option" "node list" "node list" "node option" "node list"
    \<comment> \<open>posonlyargs, args, vararg, kwonlyargs, kw_defaults (its nodes), kwarg, defaults\<close>
  | Arg int string "node option"
    \<comment> \<open>lineno, arg, annotation\<close>
  | Import int "node list"
    \<comment> \<open>lineno, names\<close>
  | ImportFrom int "string option" "node list"
    \<comment> \<open>lineno, module, names\<close>
  | Alias "int option" string
    \<comment> \<open>lineno (from Python 3.10 on), name\<close>
  | Expr int node
    \<comment> \<open>lineno, value\<close>
  | Constant int "string option"
    \<comment> \<open>lineno, value when it is a string\<close>
  | Name int string node
    \<comment> \<open>lineno, id, ctx\<close>
  | Attribute int node string node
    \<comment> \<open>lineno, value, attr, ctx\<close>
  | Subscript int node node node
    \<comment> \<open>lineno, value, slice, ctx\<close>
  | Index node
    \<comment> \<open>value\<close>
  | Other string "int option" "node list"
    \<comment> \<open>class name, lineno, child nodes\<close>

text \<open>\<open>ast.iter_child_nodes(node)\<close>: the nodes in the fields, in field order.\<close>

fun iter_child_nodes :: "node \<Rightarrow> node list" where
  "iter_child_nodes (Module body) = body"
| "iter_child_nodes (ClassDef l n bases keywords body decorator_list type_params) =
     bases @ keywords @ body @ decorator_list @ type_params"
| "iter_child_nodes (FunctionDef l n args body decorator_list returns type_params) =
     args # body @ decorator_list @ (case returns of None \<Rightarrow> [] | Some r \<Rightarrow> [r]) @ type_params"
| "iter_child_nodes (Arguments posonlyargs args vararg kwonlyargs kw_defaults kwarg defaults) =
     posonlyargs @ args @ (case vararg of None \<Rightarrow> [] | Some v \<Rightarrow> [v]) @ kwonlyargs
       @ kw_defaults @ (case kwarg of None \<Rightarrow> [] | Some k \<Rightarrow> [k]) @ defaults"
| "iter_child_nodes (Arg l a annotation) = (case annotation of None \<Rightarrow> [] | Some t \<Rightarrow> [t])"
| "iter_child_nodes (Import l names) = names"
| "iter_child_nodes (ImportFrom l m names) = names"
| "iter_child_nodes (Alias l n) = []"
| "iter_child_nodes (Expr l v) = [v]"
| "iter_child_nodes (Constant l v) = []"
| "iter_child_nodes (Name l i ctx) = [ctx]"
| "iter_child_nodes (Attribute l v a ctx) = [v, ctx]"
| "iter_child_nodes (Subscript l v sl ctx) = [v, sl, ctx]"
| "iter_child_nodes (Index v) = [v]"
| "iter_child_nodes (Other k l children) = children"

text \<open>\<open>node.lineno\<close>, \<open>None\<close> where the node has no such attribute.\<close>

fun lineno :: "node \<Rightarrow> int option" where
  "lineno (Module body) = None"
| "lineno (ClassDef l n bases keywords body decorator_list type_params) = Some l"
| "lineno (FunctionDef l n args body decorator_list returns type_params) = Some l"
| "lineno (Arguments posonlyargs args vararg kwonlyargs kw_defaults kwarg defaults) = None"
| "lineno (Arg l a annotation) = Some l"
| "lineno (Import l names) = Some l"
| "lineno (ImportFrom l m names) = Some l"
| "lineno (Alias l n) = l"
| "lineno (Expr l v) = Some l"
| "lineno (Constant l v) = Some l"
| "lineno (Name l i ctx) = Some l"
| "lineno (Attribute l v a ctx) = Some l"
| "lineno (Subscript l v sl ctx) = Some l"
| "lineno (Index v) = None"
| "lineno (Other k l children) = l"

text \<open>\<open>hasattr(node, 'lineno')\<close>.\<close>

definition has_lineno :: "node \<Rightarrow> bool" where
  "has_lineno n = (lineno n \<noteq> None)"

text \<open>\<open>type(node).__name__\<close>.\<close>

fun type_name :: "node \<Rightarrow> string" where
  "type_name (Module body) = ''Module''"
| "type_name (ClassDef l n bases keywords body decorator_list type_params) = ''ClassDef''"
| "type_name (FunctionDef l n args body decorator_list returns type_params) = ''FunctionDef''"
| "type_name (Arguments posonlyargs args vararg kwonlyargs kw_defaults kwarg defaults) = ''arguments''"
| "type_name (Arg l a annotation) = ''arg''"
| "type_name (Import l names) = ''Import''"
| "type_name (ImportFrom l m names) = ''ImportFrom''"
| "type_name (Alias l n) = ''alias''"
| "type_name (Expr l v) = ''Expr''"
| "type_name (Constant l v) = ''Constant''"
| "type_name (Name l i ctx) = ''Name''"
| "type_name (Attribute l v a ctx) = ''Attribute''"
| "type_name (Subscript l v sl ctx) = ''Subscript''"
| "type_name (Index v) = ''Index''"
| "type_name (Other k l children) = k"

text \<open>\<open>node.body\<close> of a module, a class or a function.\<close>

fun node_body :: "node \<Rightarrow> node list" where
  "node_body (Module body) = body"
| "node_body (ClassDef l n bases keywords body decorator_list type_params) = body"
| "node_body (FunctionDef l n args body decorator_list returns type_params) = body"
| "node_body other = []"

text \<open>
  \<open>ast.get_docstring(node)\<close>: the first statement of the body when it is an expression
  statement holding a string constant, cleaned by \<open>inspect.cleandoc\<close> (a parameter
  here), else \<open>None\<close>.
\<close>

definition get_docstring :: "(string \<Rightarrow> string) \<Rightarrow> node \<Rightarrow> string option" where
  "get_docstring cleandoc n =
     (case node_body n of
        Expr l (Constant l' (Some text)) # rest \<Rightarrow> Some (cleandoc text)
      | _ \<Rightarrow> None)"

text \<open>
  \<open>_find_node_end\<close>. The loop visits the children with their positions; on a child
  that has a line number it computes that child's end, and returns it when the child
  stands at the last position. When the loop ends without returning, the result is
  \<open>node.lineno\<close>. The ends computed for the children at other positions are thrown
  away, so the loop is the search for the first child that passes both tests. \<open>None\<close>
  is the \<open>AttributeError\<close> of \<open>node.lineno\<close> on a node without one.
\<close>

function find_node_end :: "node \<Rightarrow> int option" where
  "find_node_end node =
     (case List.find
             (\<lambda>(i, child). has_lineno child \<and> int i = int (length (iter_child_nodes node)) - 1)
             (enumerate 0 (iter_child_nodes node)) of
        Some (i, child) \<Rightarrow> find_node_end child
      | None \<Rightarrow> lineno node)"
  by pat_completeness auto
termination
proof (relation "measure size")
  show "wf (measure (size :: node \<Rightarrow> nat))"
    by simp
next
  fix node :: node and x2 :: "nat \<times> node" and i :: nat and child :: node
  assume found: "List.find
      (\<lambda>(i, child). has_lineno child \<and> int i = int (length (iter_child_nodes node)) - 1)
      (enumerate 0 (iter_child_nodes node)) = Some x2"
    and x2: "(i, child) = x2"
  have mem_size_list: "size c \<le> size_list size xs" if "c \<in> set xs" for c :: node and xs
    using that by (induction xs) auto
  have child_size: "size c < size n" if "c \<in> set (iter_child_nodes n)" for c n
    using that by (cases n) (auto dest!: mem_size_list split: option.splits)
  have find_mem: "x \<in> set xs" if "List.find P xs = Some x" for P and x :: "nat \<times> node" and xs
    using that by (induction xs) (auto split: if_splits)
  from found x2 have "(i, child) \<in> set (enumerate 0 (iter_child_nodes node))"
    by (auto dest: find_mem)
  then have "child \<in> set (iter_child_nodes node)"
    by (auto simp: in_set_enumerate_eq)
  then show "(child, node) \<in> measure size"
    by (simp add: child_size)
qed

declare find_node_end.simps [simp del]

text \<open>
  \<open>_get_name_from_expr\<close>: a name, a dotted attribute, a subscript, and the class name
  of any other expression node.
\<close>

fun get_name_from_expr :: "node \<Rightarrow> string" where
  "get_name_from_expr (Name l i ctx) = i"
| "get_name_from_expr (Attribute l v a ctx) = get_name_from_expr v @ ''.'' @ a"
| "get_name_from_expr (Subscript l v sl ctx) =
     (let base = get_name_from_expr v in
      case sl of
        Index (Name l' i ctx') \<Rightarrow> base @ ''['' @ i @ '']''
      | Index other \<Rightarrow> base @ ''[...]''
      | _ \<Rightarrow> base @ ''[...]'')"
| "get_name_from_expr expr = type_name expr"

section \<open>The library the program calls\<close>

text \<open>
  The exceptions that matter to the control flow: the syntax error that \<open>_index_file\<close>
  catches itself, the attribute error of a node without the attribute read, and every
  other exception (a file that cannot be opened or decoded, a source that the parser
  refuses for another reason).
\<close>

datatype exn = SyntaxError | AttributeError | OtherException

text \<open>
  Library functions are parameters of the model: \<open>re.match\<close> as a truth value,
  \<open>hashlib.md5(s.encode()).hexdigest()\<close>, \<open>ast.parse\<close>, \<open>inspect.cleandoc\<close> and
  \<open>os.path.abspath\<close>.
\<close>

record pylib =
  re_match_fn :: "string \<Rightarrow> string \<Rightarrow> bool"
  md5_hexdigest :: "string \<Rightarrow> string"
  ast_parse :: "string \<Rightarrow> exn + node"
  cleandoc :: "string \<Rightarrow> string"
  abspath :: "string \<Rightarrow> string"

section \<open>Entities\<close>

text \<open>
  The dataclasses, with inheritance as record extension. A parameter is its name and,
  when annotated, its type; \<open>properties\<close> is never filled.
\<close>

record code_entity =
  name :: string
  filepath :: string
  line_start :: int
  line_end :: int
  docstring :: "string option"
  code_snippet :: "string option"
  entity_type :: string
  hash :: string

record function_entity = code_entity +
  parameters :: "(string \<times> string option) list"
  return_type :: "string option"

record class_entity = code_entity +
  methods :: "function_entity list"
  properties :: "(string \<times> string) list list"
  base_classes :: "string list"

record module_entity = code_entity +
  "functions" :: "function_entity list"
  classes :: "class_entity list"
  "imports" :: "string list"

text \<open>\<open>__post_init__\<close>: the hash of the snippet, when the snippet is not empty.\<close>

definition post_init :: "pylib \<Rightarrow> 'a code_entity_scheme \<Rightarrow> 'a code_entity_scheme" where
  "post_init lib self =
     (case code_snippet self of
        None \<Rightarrow> self
      | Some snippet \<Rightarrow>
          if snippet \<noteq> [] then self\<lparr>hash := md5_hexdigest lib snippet\<rparr> else self)"

text \<open>The generated constructors: the fields, the default hash, then \<open>__post_init__\<close>.\<close>

definition new_function_entity ::
  "pylib \<Rightarrow> string \<Rightarrow> string \<Rightarrow> int \<Rightarrow> int \<Rightarrow> string option \<Rightarrow> string option
     \<Rightarrow> (string \<times> string option) list \<Rightarrow> string option \<Rightarrow> function_entity" where
  "new_function_entity lib n fp ls le doc snippet params rt =
     post_init lib \<lparr>name = n, filepath = fp, line_start = ls, line_end = le, docstring = doc,
       code_snippet = snippet, entity_type = ''function'', hash = [],
       parameters = params, return_type = rt\<rparr>"

definition new_class_entity ::
  "pylib \<Rightarrow> string \<Rightarrow> string \<Rightarrow> int \<Rightarrow> int \<Rightarrow> string option \<Rightarrow> string option
     \<Rightarrow> string list \<Rightarrow> class_entity" where
  "new_class_entity lib n fp ls le doc snippet bases =
     post_init lib \<lparr>name = n, filepath = fp, line_start = ls, line_end = le, docstring = doc,
       code_snippet = snippet, entity_type = ''class'', hash = [],
       methods = [], properties = [], base_classes = bases\<rparr>"

definition new_module_entity ::
  "pylib \<Rightarrow> string \<Rightarrow> string \<Rightarrow> int \<Rightarrow> int \<Rightarrow> string option \<Rightarrow> string option
     \<Rightarrow> module_entity" where
  "new_module_entity lib n fp ls le doc snippet =
     post_init lib \<lparr>name = n, filepath = fp, line_start = ls, line_end = le, docstring = doc,
       code_snippet = snippet, entity_type = ''module'', hash = [],
       functions = [], classes = [], imports = []\<rparr>"

text \<open>What the global index holds: an entity of any of the three classes.\<close>

datatype entity =
    FunctionEntity function_entity
  | ClassEntity class_entity
  | ModuleEntity module_entity

fun e_name :: "entity \<Rightarrow> string" where
  "e_name (FunctionEntity f) = name f"
| "e_name (ClassEntity c) = name c"
| "e_name (ModuleEntity m) = name m"

fun e_line_start :: "entity \<Rightarrow> int" where
  "e_line_start (FunctionEntity f) = line_start f"
| "e_line_start (ClassEntity c) = line_start c"
| "e_line_start (ModuleEntity m) = line_start m"

fun e_line_end :: "entity \<Rightarrow> int" where
  "e_line_end (FunctionEntity f) = line_end f"
| "e_line_end (ClassEntity c) = line_end c"
| "e_line_end (ModuleEntity m) = line_end m"

fun e_docstring :: "entity \<Rightarrow> string option" where
  "e_docstring (FunctionEntity f) = docstring f"
| "e_docstring (ClassEntity c) = docstring c"
| "e_docstring (ModuleEntity m) = docstring m"

fun e_code_snippet :: "entity \<Rightarrow> string option" where
  "e_code_snippet (FunctionEntity f) = code_snippet f"
| "e_code_snippet (ClassEntity c) = code_snippet c"
| "e_code_snippet (ModuleEntity m) = code_snippet m"

fun e_entity_type :: "entity \<Rightarrow> string" where
  "e_entity_type (FunctionEntity f) = entity_type f"
| "e_entity_type (ClassEntity c) = entity_type c"
| "e_entity_type (ModuleEntity m) = entity_type m"

fun e_hash :: "entity \<Rightarrow> string" where
  "e_hash (FunctionEntity f) = hash f"
| "e_hash (ClassEntity c) = hash c"
| "e_hash (ModuleEntity m) = hash m"

section \<open>Dictionaries\<close>

text \<open>
  A Python \<open>dict\<close> keeps its keys in insertion order, and an assignment to a key that
  is present replaces the value where it stands.
\<close>

type_synonym ('k, 'v) dict = "('k \<times> 'v) list"

primrec dict_set :: "'k \<Rightarrow> 'v \<Rightarrow> ('k, 'v) dict \<Rightarrow> ('k, 'v) dict" where
  "dict_set k v [] = [(k, v)]"
| "dict_set k v (p # ps) = (if fst p = k then (k, v) # ps else p # dict_set k v ps)"

definition dict_get :: "('k, 'v) dict \<Rightarrow> 'k \<Rightarrow> 'v option" where
  "dict_get d k = map_of d k"

definition dict_keys :: "('k, 'v) dict \<Rightarrow> 'k list" where
  "dict_keys d = map fst d"

definition dict_values :: "('k, 'v) dict \<Rightarrow> 'v list" where
  "dict_values d = map snd d"

section \<open>Files and paths\<close>

text \<open>
  The tree below the root directory: a file with what \<open>open(...).read()\<close> gives (the
  text, or the exception raised), a directory with its entries in the order in which
  the operating system lists them.

  A path of a file below the root is the list of its components; the program holds
  \<open>os.path.join(root_path, ...)\<close> of them, and \<open>os.path.relpath(file_path, root_path)\<close>
  is the components joined by the separator.
\<close>

datatype fs_entry =
    File string "exn + string"
  | Dir string "fs_entry list"

fun entry_name :: "fs_entry \<Rightarrow> string" where
  "entry_name (File n c) = n"
| "entry_name (Dir n es) = n"

type_synonym path = "string list"

definition relpath :: "path \<Rightarrow> string" where
  "relpath file_path = str_join ''/'' file_path"

definition basename :: "path \<Rightarrow> string" where
  "basename file_path = (case rev file_path of [] \<Rightarrow> [] | b # _ \<Rightarrow> b)"

text \<open>\<open>s.rfind(c)\<close>: the last position of \<open>c\<close>, if any.\<close>

definition rfind :: "char \<Rightarrow> string \<Rightarrow> nat option" where
  "rfind c s =
     (if c \<in> set s then Some (length s - 1 - length (takeWhile (\<lambda>x. x \<noteq> c) (rev s)))
      else None)"

text \<open>
  \<open>os.path.splitext(b)[0]\<close> on a base name: the text before the last dot, when a
  character other than a dot stands before that dot; else all of \<open>b\<close>.
\<close>

definition splitext_root :: "string \<Rightarrow> string" where
  "splitext_root b =
     (case rfind (CHR ''.'') b of
        None \<Rightarrow> b
      | Some i \<Rightarrow> if list_ex (\<lambda>c. c \<noteq> CHR ''.'') (take i b) then take i b else b)"

text \<open>\<open>open(file_path).read()\<close> in the tree.\<close>

fun read_file :: "fs_entry list \<Rightarrow> path \<Rightarrow> exn + string" where
  "read_file entries [] = Inl OtherException"
| "read_file entries [f] =
     (case List.find (\<lambda>e. entry_name e = f) entries of
        Some (File n content) \<Rightarrow> content
      | _ \<Rightarrow> Inl OtherException)"
| "read_file entries (d # f # rest) =
     (case List.find (\<lambda>e. entry_name e = d) entries of
        Some (Dir n sub) \<Rightarrow> read_file sub (f # rest)
      | _ \<Rightarrow> Inl OtherException)"

section \<open>The indexer\<close>

record code_indexer =
  root_path :: string
  exclude_patterns :: "string list"
  modules :: "(string, module_entity) dict"
  all_entities :: "(string, entity) dict"

definition default_exclude_patterns :: "string list" where
  "default_exclude_patterns = [''__pycache__'', ''*.pyc'', ''.*'', ''venv'', ''env'']"

text \<open>\<open>__init__\<close>: \<open>exclude_patterns or [...]\<close> takes the default for \<open>None\<close> and for \<open>[]\<close>.\<close>

definition new_code_indexer :: "pylib \<Rightarrow> string \<Rightarrow> string list option \<Rightarrow> code_indexer" where
  "new_code_indexer lib root exclude =
     \<lparr>root_path = abspath lib root,
      exclude_patterns =
        (case exclude of
           None \<Rightarrow> default_exclude_patterns
         | Some ps \<Rightarrow> if ps = [] then default_exclude_patterns else ps),
      modules = [],
      all_entities = []\<rparr>"

subsection \<open>Finding the files\<close>

text \<open>
  \<open>any(re.match(pattern.replace('*', '.*'), name) for pattern in exclude_patterns)\<close>.
\<close>

definition excluded :: "pylib \<Rightarrow> string list \<Rightarrow> string \<Rightarrow> bool" where
  "excluded lib patterns nm =
     list_ex (\<lambda>pattern. re_match_fn lib (replace_star pattern) nm) patterns"

text \<open>
  \<open>os.walk\<close>, top down: the files of a directory first, then each of its
  subdirectories that was not pruned, in the listed order.
\<close>

fun walk :: "pylib \<Rightarrow> string list \<Rightarrow> path \<Rightarrow> fs_entry list \<Rightarrow> path list"
  and walk_dirs :: "pylib \<Rightarrow> string list \<Rightarrow> path \<Rightarrow> fs_entry list \<Rightarrow> path list" where
  "walk lib patterns root entries =
     concat (map (\<lambda>e. case e of
                         File file c \<Rightarrow>
                           if endswith file ''.py'' \<and> \<not> excluded lib patterns file
                           then [root @ [file]] else []
                       | Dir d sub \<Rightarrow> []) entries)
     @ walk_dirs lib patterns root entries"
| "walk_dirs lib patterns root [] = []"
| "walk_dirs lib patterns root (File file c # es) = walk_dirs lib patterns root es"
| "walk_dirs lib patterns root (Dir d sub # es) =
     (if excluded lib patterns d then [] else walk lib patterns (root @ [d]) sub)
     @ walk_dirs lib patterns root es"

definition find_python_files :: "pylib \<Rightarrow> fs_entry list \<Rightarrow> code_indexer \<Rightarrow> path list" where
  "find_python_files lib fs self = walk lib (exclude_patterns self) [] fs"

subsection \<open>Processing declarations\<close>

text \<open>\<open>isinstance(node, ast.ClassDef)\<close> and \<open>isinstance(node, ast.FunctionDef)\<close>.\<close>

fun is_ClassDef :: "node \<Rightarrow> bool" where
  "is_ClassDef (ClassDef l n bases keywords body decorator_list type_params) = True"
| "is_ClassDef other = False"

fun is_FunctionDef :: "node \<Rightarrow> bool" where
  "is_FunctionDef (FunctionDef l n args body decorator_list returns type_params) = True"
| "is_FunctionDef other = False"

text \<open>\<open>node.name\<close> of a class or function declaration.\<close>

fun node_name :: "node \<Rightarrow> string" where
  "node_name (ClassDef l n bases keywords body decorator_list type_params) = n"
| "node_name (FunctionDef l n args body decorator_list returns type_params) = n"
| "node_name other = []"

text \<open>
  One entry of \<open>parameters\<close>: the argument's name and, when it is annotated, the name
  of the annotation. \<open>None\<close> is the \<open>AttributeError\<close> on a node that is no \<open>arg\<close>.
\<close>

fun process_arg :: "node \<Rightarrow> (string \<times> string option) option" where
  "process_arg (Arg l a annotation) = Some (a, map_option get_name_from_expr annotation)"
| "process_arg other = None"

text \<open>\<open>_process_function\<close>.\<close>

fun process_function :: "pylib \<Rightarrow> path \<Rightarrow> string \<Rightarrow> node \<Rightarrow> exn + function_entity" where
  "process_function lib file_path file_content
       (FunctionDef l n (Arguments posonlyargs args vararg kwonlyargs kw_defaults kwarg defaults)
          body decorator_list returns type_params) =
     (let node = FunctionDef l n
                   (Arguments posonlyargs args vararg kwonlyargs kw_defaults kwarg defaults)
                   body decorator_list returns type_params;
          source_lines = splitlines file_content;
          func_start = l
      in case find_node_end node of
           None \<Rightarrow> Inl AttributeError
         | Some func_end \<Rightarrow>
             (let func_code = str_join [LF] (py_slice source_lines (func_start - 1) func_end)
              in case those (map process_arg args) of
                   None \<Rightarrow> Inl AttributeError
                 | Some params \<Rightarrow>
                     (let rtype = map_option get_name_from_expr returns
                      in Inr (new_function_entity lib n (relpath file_path) func_start func_end
                                (get_docstring (cleandoc lib) node) (Some func_code)
                                params rtype))))"
| "process_function lib file_path file_content other = Inl AttributeError"

text \<open>
  The loop of \<open>_process_class\<close> over the class body. The method entity is one object,
  held by the class's list and by the global index; its name is set to the qualified
  name after it was appended, so both hold the entity with the qualified name.
\<close>

fun process_methods ::
  "pylib \<Rightarrow> path \<Rightarrow> string \<Rightarrow> string \<Rightarrow> node list \<Rightarrow> class_entity \<Rightarrow> code_indexer
     \<Rightarrow> (exn + class_entity) \<times> code_indexer" where
  "process_methods lib file_path file_content class_name [] class_entity self =
     (Inr class_entity, self)"
| "process_methods lib file_path file_content class_name (item # items) class_entity self =
     (if is_FunctionDef item then
        (case process_function lib file_path file_content item of
           Inl e \<Rightarrow> (Inl e, self)
         | Inr method \<Rightarrow>
             (let qualified_name = class_name @ ''.'' @ node_name item;
                  method_entity = method\<lparr>name := qualified_name\<rparr>
              in process_methods lib file_path file_content class_name items
                   (class_entity\<lparr>methods := methods class_entity @ [method_entity]\<rparr>)
                   (self\<lparr>all_entities :=
                      dict_set qualified_name (FunctionEntity method_entity) (all_entities self)\<rparr>)))
      else process_methods lib file_path file_content class_name items class_entity self)"

text \<open>\<open>_process_class\<close>.\<close>

fun process_class ::
  "pylib \<Rightarrow> path \<Rightarrow> string \<Rightarrow> node \<Rightarrow> code_indexer \<Rightarrow> (exn + class_entity) \<times> code_indexer" where
  "process_class lib file_path file_content
       (ClassDef l n bases keywords body decorator_list type_params) self =
     (let node = ClassDef l n bases keywords body decorator_list type_params;
          source_lines = splitlines file_content;
          class_start = l
      in case find_node_end node of
           None \<Rightarrow> (Inl AttributeError, self)
         | Some class_end \<Rightarrow>
             (let class_code = str_join [LF] (py_slice source_lines (class_start - 1) class_end);
                  base_classes = map get_name_from_expr bases;
                  class_entity = new_class_entity lib n (relpath file_path) class_start class_end
                                   (get_docstring (cleandoc lib) node) (Some class_code)
                                   base_classes
              in process_methods lib file_path file_content n body class_entity self))"
| "process_class lib file_path file_content other self = (Inl AttributeError, self)"

subsection \<open>Indexing a file\<close>

text \<open>\<open>alias.name\<close>.\<close>

fun alias_name :: "node \<Rightarrow> string" where
  "alias_name (Alias l n) = n"
| "alias_name other = []"

text \<open>\<open>_extract_imports\<close>.\<close>

fun extract_import :: "node \<Rightarrow> string list" where
  "extract_import (Import l names) = map (\<lambda>a. ''import '' @ alias_name a) names"
| "extract_import (ImportFrom l m names) =
     (let module = (case m of None \<Rightarrow> [] | Some x \<Rightarrow> x)
      in map (\<lambda>a. ''from '' @ module @ '' import '' @ alias_name a) names)"
| "extract_import other = []"

definition extract_imports :: "node \<Rightarrow> string list" where
  "extract_imports module_ast = concat (map extract_import (node_body module_ast))"

text \<open>The loop of \<open>_index_file\<close> over the module body.\<close>

fun index_body ::
  "pylib \<Rightarrow> path \<Rightarrow> string \<Rightarrow> node list \<Rightarrow> module_entity \<Rightarrow> code_indexer
     \<Rightarrow> (exn + module_entity) \<times> code_indexer" where
  "index_body lib file_path file_content [] module self = (Inr module, self)"
| "index_body lib file_path file_content (node # rest) module self =
     (if is_ClassDef node then
        (case process_class lib file_path file_content node self of
           (Inl e, self') \<Rightarrow> (Inl e, self')
         | (Inr class_entity, self') \<Rightarrow>
             index_body lib file_path file_content rest
               (module\<lparr>classes := classes module @ [class_entity]\<rparr>)
               (self'\<lparr>all_entities :=
                  dict_set (name class_entity) (ClassEntity class_entity) (all_entities self')\<rparr>))
      else if is_FunctionDef node then
        (case process_function lib file_path file_content node of
           Inl e \<Rightarrow> (Inl e, self)
         | Inr func_entity \<Rightarrow>
             index_body lib file_path file_content rest
               (module\<lparr>functions := functions module @ [func_entity]\<rparr>)
               (self\<lparr>all_entities :=
                  dict_set (name func_entity) (FunctionEntity func_entity) (all_entities self)\<rparr>))
      else index_body lib file_path file_content rest module self)"

text \<open>
  \<open>_index_file\<close>. The result is the exception that leaves the method, if any, and the
  indexer as the method left it. A syntax error raised inside the \<open>try\<close> is caught
  (and logged as a warning); an exception of \<open>open\<close> or \<open>read\<close> is raised before the
  \<open>try\<close>.
\<close>

definition index_parsed ::
  "pylib \<Rightarrow> path \<Rightarrow> string \<Rightarrow> code_indexer \<Rightarrow> exn option \<times> code_indexer" where
  "index_parsed lib file_path file_content self =
     (case ast_parse lib file_content of
        Inl e \<Rightarrow> (Some e, self)
      | Inr module_ast \<Rightarrow>
          (let module_name = splitext_root (basename file_path);
               module_docstring = get_docstring (cleandoc lib) module_ast;
               module = new_module_entity lib module_name (relpath file_path) 1
                          (int (length (splitlines file_content))) module_docstring
                          (Some file_content);
               module = module\<lparr>imports := extract_imports module_ast\<rparr>
           in case index_body lib file_path file_content (node_body module_ast) module self of
                (Inl e, self') \<Rightarrow> (Some e, self')
              | (Inr module, self') \<Rightarrow>
                  (None, self'\<lparr>modules := dict_set module_name module (modules self'),
                                all_entities :=
                                  dict_set module_name (ModuleEntity module) (all_entities self')\<rparr>)))"

definition index_file ::
  "pylib \<Rightarrow> fs_entry list \<Rightarrow> path \<Rightarrow> code_indexer \<Rightarrow> exn option \<times> code_indexer" where
  "index_file lib fs file_path self =
     (case read_file fs file_path of
        Inl e \<Rightarrow> (Some e, self)
      | Inr file_content \<Rightarrow>
          (case index_parsed lib file_path file_content self of
             (Some SyntaxError, self') \<Rightarrow> (None, self')
           | r \<Rightarrow> r))"

subsection \<open>Indexing the tree\<close>

text \<open>
  The loop of \<open>index_codebase\<close>: an exception of \<open>_index_file\<close> is logged, and the loop
  goes on with the indexer as that call left it.
\<close>

fun index_files :: "pylib \<Rightarrow> fs_entry list \<Rightarrow> path list \<Rightarrow> code_indexer \<Rightarrow> code_indexer" where
  "index_files lib fs [] self = self"
| "index_files lib fs (file_path # rest) self =
     (case index_file lib fs file_path self of
        (None, self') \<Rightarrow> index_files lib fs rest self'
      | (Some e, self') \<Rightarrow> index_files lib fs rest self')"

definition index_codebase :: "pylib \<Rightarrow> fs_entry list \<Rightarrow> code_indexer \<Rightarrow> code_indexer" where
  "index_codebase lib fs self = index_files lib fs (find_python_files lib fs self) self"

section \<open>Queries\<close>

subsection \<open>Search\<close>

text \<open>
  \<open>field and query_lower in field.lower()\<close> for an optional text field: false for
  \<open>None\<close> and for the empty text.
\<close>

fun field_matches :: "string \<Rightarrow> string option \<Rightarrow> bool" where
  "field_matches query_lower None = False"
| "field_matches query_lower (Some text) = (text \<noteq> [] \<and> str_in query_lower (lower text))"

text \<open>The loop of \<open>search_entities\<close>, with the three \<open>continue\<close> branches in order.\<close>

fun search_loop :: "string \<Rightarrow> string option \<Rightarrow> entity list \<Rightarrow> entity list \<Rightarrow> entity list" where
  "search_loop query_lower etype [] results = results"
| "search_loop query_lower etype (entity # rest) results =
     (if truthy etype \<and> Some (e_entity_type entity) \<noteq> etype
      then search_loop query_lower etype rest results
      else if str_in query_lower (lower (e_name entity))
      then search_loop query_lower etype rest (results @ [entity])
      else if field_matches query_lower (e_docstring entity)
      then search_loop query_lower etype rest (results @ [entity])
      else if field_matches query_lower (e_code_snippet entity)
      then search_loop query_lower etype rest (results @ [entity])
      else search_loop query_lower etype rest results)"

definition search_entities :: "code_indexer \<Rightarrow> string \<Rightarrow> string option \<Rightarrow> entity list" where
  "search_entities self query etype =
     search_loop (lower query) etype (dict_values (all_entities self)) []"

definition get_entity_by_name :: "code_indexer \<Rightarrow> string \<Rightarrow> entity option" where
  "get_entity_by_name self nm = dict_get (all_entities self) nm"

subsection \<open>Relationships\<close>

text \<open>
  \<open>\w\<close> on code points below 256: the underscore and the characters that
  \<open>str.isalnum\<close> accepts.
\<close>

definition is_word_char :: "char \<Rightarrow> bool" where
  "is_word_char c =
     (let n = of_char c :: nat in
      (48 \<le> n \<and> n \<le> 57) \<or> (65 \<le> n \<and> n \<le> 90) \<or> n = 95 \<or> (97 \<le> n \<and> n \<le> 122)
      \<or> n \<in> {170, 178, 179, 181, 185, 186, 188, 189, 190}
      \<or> (192 \<le> n \<and> n \<noteq> 215 \<and> n \<noteq> 247))"

text \<open>
  \<open>\b\<close> between two neighbouring positions of the text (\<open>None\<close> beyond either end):
  exactly one side is a word character.
\<close>

fun word_side :: "char option \<Rightarrow> bool" where
  "word_side None = False"
| "word_side (Some c) = is_word_char c"

definition boundary :: "char option \<Rightarrow> char option \<Rightarrow> bool" where
  "boundary l r = (word_side l \<noteq> word_side r)"

fun first_char :: "string \<Rightarrow> char option" where
  "first_char [] = None"
| "first_char (c # cs) = Some c"

text \<open>
  \<open>re.search(r'\b' + re.escape(word) + r'\b', text)\<close> as a truth value: at some
  position the text goes on with \<open>word\<close>, with a boundary before and after it.
  \<open>prev\<close> is the character before the position.
\<close>

definition word_at :: "char option \<Rightarrow> string \<Rightarrow> string \<Rightarrow> bool" where
  "word_at prev word text =
     (startswith text word
      \<and> boundary prev (first_char text)
      \<and> boundary (if word = [] then prev else Some (last word))
                  (first_char (drop (length word) text)))"

fun word_search_from :: "char option \<Rightarrow> string \<Rightarrow> string \<Rightarrow> bool" where
  "word_search_from prev word [] = word_at prev word []"
| "word_search_from prev word (c # cs) =
     (word_at prev word (c # cs) \<or> word_search_from (Some c) word cs)"

definition word_search :: "string \<Rightarrow> string \<Rightarrow> bool" where
  "word_search word text = word_search_from None word text"

text \<open>
  \<open>snippet and word in snippet\<close>, then the search for the whole word.
\<close>

fun snippet_uses :: "string option \<Rightarrow> string \<Rightarrow> bool" where
  "snippet_uses None word = False"
| "snippet_uses (Some snippet) word =
     (snippet \<noteq> [] \<and> str_in word snippet \<and> word_search word snippet)"

text \<open>\<open>name.split(".")[-1]\<close>.\<close>

definition simple_name_of :: "string \<Rightarrow> string" where
  "simple_name_of nm = last (str_split (CHR ''.'') nm)"

record relationships =
  rel_imports :: "string list"
  rel_imported_by :: "string list"
  rel_uses :: "string list"
  rel_used_by :: "string list"

definition no_relationships :: relationships where
  "no_relationships = \<lparr>rel_imports = [], rel_imported_by = [], rel_uses = [], rel_used_by = []\<rparr>"

text \<open>The two nested loops over the modules, for a module entity.\<close>

definition imported_by_loop :: "string \<Rightarrow> module_entity list \<Rightarrow> string list" where
  "imported_by_loop entity_name other_modules =
     concat (map (\<lambda>other_module.
               concat (map (\<lambda>import_stmt.
                         if str_in entity_name import_stmt then [name other_module] else [])
                       (imports other_module)))
             other_modules)"

definition imports_loop :: "string list \<Rightarrow> string list \<Rightarrow> string list" where
  "imports_loop entity_imports module_names =
     concat (map (\<lambda>import_stmt.
               concat (map (\<lambda>other_module_name.
                         if str_in other_module_name import_stmt then [other_module_name] else [])
                       module_names))
             entity_imports)"

text \<open>The loop over all entities, for the usage relationships.\<close>

fun usage_loop :: "entity \<Rightarrow> string \<Rightarrow> entity list \<Rightarrow> relationships \<Rightarrow> relationships" where
  "usage_loop entity simple_name [] rel = rel"
| "usage_loop entity simple_name (other_entity # rest) rel =
     (if e_name other_entity = e_name entity then usage_loop entity simple_name rest rel
      else
        (let rel1 = (if snippet_uses (e_code_snippet other_entity) simple_name
                     then rel\<lparr>rel_used_by := rel_used_by rel @ [e_name other_entity]\<rparr>
                     else rel);
             other_simple_name = simple_name_of (e_name other_entity);
             rel2 = (if snippet_uses (e_code_snippet entity) other_simple_name
                     then rel1\<lparr>rel_uses := rel_uses rel1 @ [e_name other_entity]\<rparr>
                     else rel1)
         in usage_loop entity simple_name rest rel2))"

definition get_entity_relationships :: "code_indexer \<Rightarrow> string \<Rightarrow> relationships" where
  "get_entity_relationships self entity_name =
     (case dict_get (all_entities self) entity_name of
        None \<Rightarrow> no_relationships
      | Some entity \<Rightarrow>
          (let rel = (case entity of
                        ModuleEntity m \<Rightarrow>
                          no_relationships
                            \<lparr>rel_imported_by :=
                               imported_by_loop (name m) (dict_values (modules self)),
                             rel_imports :=
                               imports_loop (imports m) (dict_keys (modules self))\<rparr>
                      | _ \<Rightarrow> no_relationships);
               simple_name = simple_name_of (e_name entity)
           in usage_loop entity simple_name (dict_values (all_entities self)) rel))"

section \<open>The server's search and entity routes\<close>

record doc_file =
  doc_path :: string
  doc_title :: string
  doc_content :: string

record doc_match =
  match_line :: int
  match_context :: string

record doc_result =
  result_path :: string
  result_title :: string
  result_matches :: "doc_match list"

text \<open>\<open>DocParser.search_docs\<close>, over the indexed documentation files.\<close>

definition match_contexts :: "string \<Rightarrow> string list \<Rightarrow> doc_match list" where
  "match_contexts query_lower lines =
     concat (map (\<lambda>(i, line).
               if str_in query_lower (lower line)
               then [\<lparr>match_line = int i + 1,
                      match_context =
                        str_join [LF] (py_slice lines (max 0 (int i - 2))
                                         (min (int (length lines)) (int i + 3)))\<rparr>]
               else [])
             (enumerate 0 lines))"

definition search_docs :: "(string, doc_file) dict \<Rightarrow> string \<Rightarrow> doc_result list" where
  "search_docs doc_files query =
     (let query_lower = lower query
      in concat (map (\<lambda>file_info.
                   if str_in query_lower (lower (doc_content file_info))
                   then [\<lparr>result_path = doc_path file_info,
                          result_title = doc_title file_info,
                          result_matches =
                            match_contexts query_lower (str_split LF (doc_content file_info))\<rparr>]
                   else [])
                 (dict_values doc_files)))"

record server =
  code_indexer_of :: code_indexer
  doc_parser :: "(string, doc_file) dict option"

text \<open>
  What a route answers: the status code and the body that \<open>jsonify\<close> serialises (an
  entity stands for its \<open>asdict\<close>).
\<close>

datatype body =
    ErrorBody string
  | SearchBody "entity list" "doc_result list"
  | EntityBody entity relationships

type_synonym response = "int \<times> body"

text \<open>\<open>request.args.get(key)\<close>: the first value given for the key.\<close>

definition args_get :: "(string \<times> string) list \<Rightarrow> string \<Rightarrow> string option" where
  "args_get args key = map_of args key"

definition quoted :: "string \<Rightarrow> string" where
  "quoted s = CHR 0x27 # s @ [CHR 0x27]"

text \<open>The route \<open>/search\<close>.\<close>

definition search :: "server \<Rightarrow> (string \<times> string) list \<Rightarrow> response" where
  "search self args =
     (let query = (case args_get args ''q'' of None \<Rightarrow> [] | Some q \<Rightarrow> q);
          etype = args_get args ''type''
      in if query = [] then (400, ErrorBody (''Query parameter '' @ quoted ''q'' @ '' is required''))
         else
           (let code_results = search_entities (code_indexer_of self) query etype;
                doc_results = (case doc_parser self of
                                 None \<Rightarrow> []
                               | Some doc_files \<Rightarrow> search_docs doc_files query)
            in (200, SearchBody code_results doc_results)))"

text \<open>The route \<open>/entity/<name>\<close>.\<close>

definition get_entity :: "server \<Rightarrow> string \<Rightarrow> response" where
  "get_entity self entity_name =
     (case get_entity_by_name (code_indexer_of self) entity_name of
        None \<Rightarrow> (404, ErrorBody (''Entity '' @ quoted entity_name @ '' not found''))
      | Some entity \<Rightarrow>
          (200, EntityBody entity
                  (get_entity_relationships (code_indexer_of self) entity_name)))"

section \<open>Sample sources\<close>

text \<open>
  Sources for the concrete instances below, each with the tree that \<open>ast.parse\<close>
  gives for it (Python 3.9 and later: a subscript holds its index directly).
\<close>

definition Load :: node where
  "Load = Other ''Load'' None []"

definition no_arguments :: node where
  "no_arguments = Arguments [] [] None [] [] None []"

text \<open>The empty file.\<close>

definition src_empty :: string where
  "src_empty = []"

definition ast_empty :: node where
  "ast_empty = Module []"

text \<open>
  \<^verbatim>\<open>class C:\<close> \<^verbatim>\<open> def m(self): pass\<close> \<^verbatim>\<open> def m(self, x): pass\<close>
  (three lines): a class that declares \<open>m\<close> twice.
\<close>

definition src_twice :: string where
  "src_twice = ''class C:'' @ [LF] @ '' def m(self): pass'' @ [LF]
                 @ '' def m(self, x): pass'' @ [LF]"

definition first_m :: node where
  "first_m =
     FunctionDef 2 ''m'' (Arguments [] [Arg 2 ''self'' None] None [] [] None [])
       [Other ''Pass'' (Some 2) []] [] None []"

definition second_m :: node where
  "second_m =
     FunctionDef 3 ''m'' (Arguments [] [Arg 3 ''self'' None, Arg 3 ''x'' None] None [] [] None [])
       [Other ''Pass'' (Some 3) []] [] None []"

definition class_twice :: node where
  "class_twice = ClassDef 1 ''C'' [] [] [first_m, second_m] [] []"

definition ast_twice :: node where
  "ast_twice = Module [class_twice]"

text \<open>
  \<^verbatim>\<open>def f():\<close> \<^verbatim>\<open> x[\<close> \<^verbatim>\<open>  1]\<close> (three lines): the last statement is a
  subscript whose index stands on the line after it.
\<close>

definition src_subscript :: string where
  "src_subscript = ''def f():'' @ [LF] @ '' x['' @ [LF] @ ''  1]'' @ [LF]"

definition def_subscript :: node where
  "def_subscript =
     FunctionDef 1 ''f'' no_arguments
       [Expr 2 (Subscript 2 (Name 2 ''x'' Load) (Constant 3 None) Load)] [] None []"

definition ast_subscript :: node where
  "ast_subscript = Module [def_subscript]"

text \<open>
  \<^verbatim>\<open>@d\<close> \<^verbatim>\<open>def f(): pass\<close> (two lines): a decorated function, whose line number is
  the line of \<open>def\<close>.
\<close>

definition src_decorated :: string where
  "src_decorated = ''@d'' @ [LF] @ ''def f(): pass'' @ [LF]"

definition ast_decorated :: node where
  "ast_decorated =
     Module
       [FunctionDef 2 ''f'' no_arguments [Other ''Pass'' (Some 2) []] [Name 1 ''d'' Load] None []]"

text \<open>
  \<^verbatim>\<open>def f(): return f()\<close> \<^verbatim>\<open>def g(): return f()\<close> (two lines): \<open>f\<close> names itself
  and \<open>g\<close> names \<open>f\<close>.
\<close>

definition src_calls :: string where
  "src_calls = ''def f(): return f()'' @ [LF] @ ''def g(): return f()'' @ [LF]"

definition ast_calls :: node where
  "ast_calls =
     Module
       [FunctionDef 1 ''f'' no_arguments
          [Other ''Return'' (Some 1) [Other ''Call'' (Some 1) [Name 1 ''f'' Load]]] [] None [],
        FunctionDef 2 ''g'' no_arguments
          [Other ''Return'' (Some 2) [Other ''Call'' (Some 2) [Name 2 ''f'' Load]]] [] None []]"

text \<open>\<^verbatim>\<open>def (:\<close>: not Python.\<close>

definition src_broken :: string where
  "src_broken = ''def (:'' @ [LF]"

text \<open>
  A library for the concrete instances: the regex fragment as the engine, \<open>ast.parse\<close>
  tabulated on the sample sources (any other text is refused with another exception),
  and stand-ins for the digest, \<open>cleandoc\<close> and \<open>abspath\<close>.
\<close>

definition sample_parse :: "string \<Rightarrow> exn + node" where
  "sample_parse s =
     (case map_of
             [(src_empty, Inr ast_empty),
              (src_twice, Inr ast_twice),
              (src_subscript, Inr ast_subscript),
              (src_decorated, Inr ast_decorated),
              (src_calls, Inr ast_calls),
              (src_broken, Inl SyntaxError)] s of
        Some r \<Rightarrow> r
      | None \<Rightarrow> Inl OtherException)"

definition sample_lib :: pylib where
  "sample_lib =
     \<lparr>re_match_fn = fragment_engine,
      md5_hexdigest = (\<lambda>s. ''md5:'' @ s),
      ast_parse = sample_parse,
      cleandoc = (\<lambda>s. s),
      abspath = (\<lambda>p. p)\<rparr>"

text \<open>An indexer with an exclude pattern of its own, and trees for it.\<close>

definition sample_indexer :: code_indexer where
  "sample_indexer = new_code_indexer sample_lib ''/srv'' (Some [''venv''])"

definition calls_tree :: "fs_entry list" where
  "calls_tree = [File ''calls.py'' (Inr src_calls)]"

definition calls_copy_tree :: "fs_entry list" where
  "calls_copy_tree = [Dir ''lib'' [File ''copy.py'' (Inr src_calls)]]"



section \<open>Notions used by the properties\<close>

text \<open>
  The span algorithm in the words of the specification: descend into the last child, in
  iteration order, that carries a line number, until a node has no such child, and
  return that node's own line number.
\<close>

function spec_node_end :: "node \<Rightarrow> int option" where
  "spec_node_end node =
     (case rev (filter has_lineno (iter_child_nodes node)) of
        [] \<Rightarrow> lineno node
      | child # others \<Rightarrow> spec_node_end child)"
  by pat_completeness auto
termination
proof (relation "measure size")
  show "wf (measure (size :: node \<Rightarrow> nat))"
    by simp
next
  fix node child :: node and others :: "node list"
  assume last_child: "rev (filter has_lineno (iter_child_nodes node)) = child # others"
  have mem_size_list: "size c \<le> size_list size xs" if "c \<in> set xs" for c :: node and xs
    using that by (induction xs) auto
  have child_size: "size c < size n" if "c \<in> set (iter_child_nodes n)" for c n
    using that by (cases n) (auto dest!: mem_size_list split: option.splits)
  have "child \<in> set (rev (filter has_lineno (iter_child_nodes node)))"
    by (simp only: last_child list.set_intros)
  then have "child \<in> set (iter_child_nodes node)"
    by simp
  then show "(child, node) \<in> measure size"
    by (simp add: child_size)
qed

declare spec_node_end.simps [simp del]

text \<open>
  The content hash in the words of the specification: the digest of the snippet, empty
  when there is no snippet (or an empty one).
\<close>

definition content_hash :: "pylib \<Rightarrow> string option \<Rightarrow> string" where
  "content_hash lib snippet =
     (case snippet of
        None \<Rightarrow> []
      | Some s \<Rightarrow> if s = [] then [] else md5_hexdigest lib s)"

text \<open>
  The entities an entity holds, itself first: a class holds its methods, a module its
  functions, its classes and their methods.
\<close>

fun sub_entities :: "entity \<Rightarrow> entity list" where
  "sub_entities (FunctionEntity f) = [FunctionEntity f]"
| "sub_entities (ClassEntity c) = ClassEntity c # map FunctionEntity (methods c)"
| "sub_entities (ModuleEntity m) =
     ModuleEntity m # map FunctionEntity (functions m)
       @ concat (map (\<lambda>c. ClassEntity c # map FunctionEntity (methods c)) (classes m))"

text \<open>Every entity that can be reached from the two indexes.\<close>

definition index_entities :: "code_indexer \<Rightarrow> entity list" where
  "index_entities self =
     concat (map sub_entities
       (dict_values (all_entities self) @ map ModuleEntity (dict_values (modules self))))"

text \<open>
  The declarations of a module that \<open>_index_file\<close> processes: the classes and functions
  of the module body, and the functions of the bodies of those classes.
\<close>

definition declarations :: "node \<Rightarrow> node list" where
  "declarations module_ast =
     concat (map (\<lambda>n. if is_ClassDef n then n # filter is_FunctionDef (node_body n)
                       else if is_FunctionDef n then [n] else [])
                 (node_body module_ast))"

text \<open>
  What holds of an entity built from a file with the given content and tree: its hash
  is the content hash of its snippet; a module spans line 1 to the number of lines of
  the content; a class or function spans the line of a declaration of the tree to that
  declaration's computed end.
\<close>

definition built_from :: "pylib \<Rightarrow> string \<Rightarrow> node \<Rightarrow> entity \<Rightarrow> bool" where
  "built_from lib file_content module_ast e =
     (e_hash e = content_hash lib (e_code_snippet e)
      \<and> (case e of
            ModuleEntity m \<Rightarrow>
              line_start m = 1 \<and> line_end m = int (length (splitlines file_content))
          | _ \<Rightarrow>
              list_ex (\<lambda>node. lineno node = Some (e_line_start e)
                               \<and> find_node_end node = Some (e_line_end e))
                      (declarations module_ast)))"

text \<open>
  An entity built in a pass over the files \<open>ps\<close> of the tree \<open>fs\<close>: built from one of
  the files that could be read and parsed.
\<close>

definition built_in_pass :: "pylib \<Rightarrow> fs_entry list \<Rightarrow> path list \<Rightarrow> entity \<Rightarrow> bool" where
  "built_in_pass lib fs ps e =
     (\<exists>p \<in> set ps. \<exists>file_content module_ast.
        read_file fs p = Inr file_content \<and> ast_parse lib file_content = Inr module_ast
        \<and> built_from lib file_content module_ast e)"

text \<open>
  A relation between the indexer before and after some steps of a pass that every
  step of a pass respects: it is reflexive and transitive, and it holds across the
  assignment of an entity with property \<open>B\<close> (it, and the entities it holds) to the
  key that is its name, in either index.
\<close>

definition pass_relation ::
  "(entity \<Rightarrow> bool) \<Rightarrow> (code_indexer \<Rightarrow> code_indexer \<Rightarrow> bool) \<Rightarrow> bool" where
  "pass_relation B R =
     ((\<forall>s. R s s)
      \<and> (\<forall>a b c. R a b \<longrightarrow> R b c \<longrightarrow> R a c)
      \<and> (\<forall>s e. (\<forall>x \<in> set (sub_entities e). B x)
            \<longrightarrow> R s (s\<lparr>all_entities := dict_set (e_name e) e (all_entities s)\<rparr>))
      \<and> (\<forall>s m. (\<forall>x \<in> set (sub_entities (ModuleEntity m)). B x)
            \<longrightarrow> R s (s\<lparr>modules := dict_set (name m) m (modules s)\<rparr>)))"

text \<open>Every key of the global index is the name of the entity it holds.\<close>

definition keys_named :: "code_indexer \<Rightarrow> bool" where
  "keys_named self = list_all (\<lambda>(k, e). e_name e = k) (all_entities self)"

text \<open>
  The indexers a program can hold: a new one, and the result of a pass over any tree
  on one it can hold.
\<close>

inductive reachable :: "pylib \<Rightarrow> code_indexer \<Rightarrow> bool" for lib :: pylib where
  fresh: "reachable lib (new_code_indexer lib root exclude)"
| rebuilt: "reachable lib self \<Longrightarrow> reachable lib (index_codebase lib fs self)"



text \<open>
  The match of the specification: the kind equals the filter, when one is given, and
  the lowercased query occurs in the name, in the docstring or in the snippet, compared
  without regard to case.
\<close>

definition entity_matches :: "string \<Rightarrow> string option \<Rightarrow> entity \<Rightarrow> bool" where
  "entity_matches query etype e =
     ((case etype of None \<Rightarrow> True | Some t \<Rightarrow> e_entity_type e = t)
      \<and> (str_in (lower query) (lower (e_name e))
          \<or> (case e_docstring e of None \<Rightarrow> False | Some d \<Rightarrow> str_in (lower query) (lower d))
          \<or> (case e_code_snippet e of None \<Rightarrow> False | Some s \<Rightarrow> str_in (lower query) (lower s))))"

text \<open>A server over an indexed tree, without documentation.\<close>

definition sample_server :: server where
  "sample_server =
     \<lparr>code_indexer_of = index_codebase sample_lib calls_tree sample_indexer, doc_parser = None\<rparr>"

section \<open>Properties\<close>

subsection \<open>Discovery with the default exclude patterns\<close>

lemma star_matches_all: "re_match_here [(a, True)] s"
  by (induction s) auto

lemma dot_dot_star: "re_match ''..*'' nm = Some (nm \<noteq> [] \<and> hd nm \<noteq> LF)"
  by (cases nm) (simp_all add: re_match_def re_meta_def star_matches_all)

lemma default_excludes:
  assumes "sound_engine (re_match_fn lib)" and "nm \<noteq> []" and "hd nm \<noteq> LF"
  shows "excluded lib default_exclude_patterns nm"
proof -
  have "re_match (replace_star ''.*'') nm = Some True"
    using assms(2,3) by (simp add: replace_star_def dot_dot_star)
  then have "re_match_fn lib (replace_star ''.*'') nm"
    using assms(1) by (simp add: sound_engine_def)
  then show ?thesis
    by (simp add: excluded_def default_exclude_patterns_def)
qed

lemma walk_dirs_all_excluded:
  assumes "\<forall>e \<in> set entries. excluded lib patterns (entry_name e)"
  shows "walk_dirs lib patterns root entries = []"
  using assms
proof (induction entries)
  case Nil
  then show ?case by simp
next
  case (Cons e es)
  then show ?case by (cases e) simp_all
qed

lemma walk_all_excluded:
  assumes "\<forall>e \<in> set entries. excluded lib patterns (entry_name e)"
  shows "walk lib patterns root entries = []"
proof -
  have "(case e of File file c \<Rightarrow>
            if endswith file ''.py'' \<and> \<not> excluded lib patterns file then [root @ [file]] else []
          | Dir d sub \<Rightarrow> []) = []" if "e \<in> set entries" for e
    using assms that by (cases e) auto
  then show ?thesis
    using assms by (simp add: walk_dirs_all_excluded)
qed

lemma sound_fragment_engine: "sound_engine fragment_engine"
  by (auto simp: sound_engine_def fragment_engine_def)

text \<open>
  C1, amended. The default pattern \<open>.*\<close> becomes the regex \<open>..*\<close>, whose first dot
  matches every character but the newline. So in a root directory where every entry's
  name starts with a character other than the newline, an indexer constructed without
  exclude patterns finds no file (every subdirectory is pruned, every file excluded),
  and \<open>index_codebase\<close> leaves both indexes empty. This holds for every regex engine that
  agrees with the fragment.
\<close>

theorem default_patterns_exclude_all:
  assumes "sound_engine (re_match_fn lib)"
    and "\<forall>e \<in> set fs. entry_name e \<noteq> [] \<and> hd (entry_name e) \<noteq> LF"
  shows "find_python_files lib fs (new_code_indexer lib root None) = []
       \<and> all_entities (index_codebase lib fs (new_code_indexer lib root None)) = []
       \<and> modules (index_codebase lib fs (new_code_indexer lib root None)) = []"
proof -
  have ex: "\<forall>e \<in> set fs. excluded lib default_exclude_patterns (entry_name e)"
    using assms by (simp add: default_excludes)
  have pats: "exclude_patterns (new_code_indexer lib root None) = default_exclude_patterns"
    by (simp add: new_code_indexer_def)
  have none: "find_python_files lib fs (new_code_indexer lib root None) = []"
    unfolding find_python_files_def pats using ex by (rule walk_all_excluded)
  then have "index_codebase lib fs (new_code_indexer lib root None) = new_code_indexer lib root None"
    by (simp add: index_codebase_def)
  with none show ?thesis
    by (simp add: new_code_indexer_def)
qed

theorem default_patterns_exclude_all_witness:
  "find_python_files sample_lib
     [File ''a.py'' (Inr src_empty), Dir ''pkg'' [File ''b.py'' (Inr src_empty)]]
     (new_code_indexer sample_lib ''/srv'' None) = []
   \<and> all_entities (index_codebase sample_lib
         [File ''a.py'' (Inr src_empty), Dir ''pkg'' [File ''b.py'' (Inr src_empty)]]
         (new_code_indexer sample_lib ''/srv'' None)) = []
   \<and> modules (index_codebase sample_lib
         [File ''a.py'' (Inr src_empty), Dir ''pkg'' [File ''b.py'' (Inr src_empty)]]
         (new_code_indexer sample_lib ''/srv'' None)) = []"
proof -
  have "sound_engine (re_match_fn sample_lib)"
    by (simp add: sample_lib_def sound_fragment_engine)
  moreover have
    "\<forall>e \<in> set [File ''a.py'' (Inr src_empty), Dir ''pkg'' [File ''b.py'' (Inr src_empty)]].
       entry_name e \<noteq> [] \<and> hd (entry_name e) \<noteq> LF"
    by (simp add: LF_def)
  ultimately show ?thesis
    by (rule default_patterns_exclude_all)
qed

text \<open>
  C1 as stated fails: a file whose name starts with a newline is matched by none of
  the five default patterns, so it is found, and indexed.
\<close>

theorem default_patterns_newline_counterexample:
  "find_python_files sample_lib [File (LF # ''a.py'') (Inr src_empty)]
     (new_code_indexer sample_lib ''/srv'' None) = [[LF # ''a.py'']]
   \<and> dict_keys (all_entities (index_codebase sample_lib [File (LF # ''a.py'') (Inr src_empty)]
         (new_code_indexer sample_lib ''/srv'' None))) = [LF # ''a'']"
  by code_simp

subsection \<open>A file with a syntax error\<close>





subsection \<open>The span algorithm\<close>

text \<open>
  C4 does not hold of the code. In \<^verbatim>\<open>def f():\<close> \<^verbatim>\<open> x[\<close> \<^verbatim>\<open>  1]\<close> the last child of
  the subscript is its context, which has no line number; \<open>_find_node_end\<close> then
  returns the subscript's own line 2, although the subscript has children with line
  numbers, the last of them on line 3, which is what the described descent returns.
\<close>

theorem find_node_end_differs_from_spec:
  "find_node_end def_subscript = Some 2 \<and> spec_node_end def_subscript = Some 3"
  by code_simp

subsection \<open>What every step of a pass respects\<close>

lemma process_function_Inr:
  assumes "process_function lib fp fc node = Inr fe"
  shows "is_FunctionDef node \<and> name fe = node_name node
       \<and> lineno node = Some (line_start fe) \<and> find_node_end node = Some (line_end fe)
       \<and> hash fe = content_hash lib (code_snippet fe)"
  using assms
  by (induction lib fp fc node rule: process_function.induct)
     (auto simp: Let_def new_function_entity_def post_init_def content_hash_def
           split: option.splits)

lemma rel_refl: "pass_relation B R \<Longrightarrow> R s s"
  by (simp add: pass_relation_def)

lemma rel_trans: "pass_relation B R \<Longrightarrow> R a b \<Longrightarrow> R b c \<Longrightarrow> R a c"
  unfolding pass_relation_def by blast

lemma rel_put:
  "pass_relation B R \<Longrightarrow> \<forall>x \<in> set (sub_entities e). B x \<Longrightarrow> k = e_name e
     \<Longrightarrow> R s (s\<lparr>all_entities := dict_set k e (all_entities s)\<rparr>)"
  unfolding pass_relation_def by blast

lemma rel_put_module:
  "pass_relation B R \<Longrightarrow> \<forall>x \<in> set (sub_entities (ModuleEntity m)). B x \<Longrightarrow> k = name m
     \<Longrightarrow> R s (s\<lparr>modules := dict_set k m (modules s)\<rparr>)"
  unfolding pass_relation_def by blast

lemma built_from_function:
  assumes "process_function lib fp fc item = Inr fe" and "item \<in> set (declarations module_ast)"
  shows "built_from lib fc module_ast (FunctionEntity (fe\<lparr>name := q\<rparr>))"
  using process_function_Inr [OF assms(1)] assms(2)
  by (auto simp: built_from_def list_ex_iff)

lemma process_methods_rel:
  assumes "pass_relation B R"
    and "\<And>x. built_from lib fc module_ast x \<Longrightarrow> B x"
    and "\<forall>item \<in> set items. is_FunctionDef item \<longrightarrow> item \<in> set (declarations module_ast)"
    and "process_methods lib fp fc cn items ce self = (r, self')"
  shows "R self self'
       \<and> (\<forall>ce'. r = Inr ce' \<longrightarrow>
             (\<exists>ms. ce' = ce\<lparr>methods := methods ce @ ms\<rparr> \<and> (\<forall>m \<in> set ms. B (FunctionEntity m))))"
  using assms(3,4)
proof (induction items arbitrary: ce self)
  case Nil
  have "ce = ce\<lparr>methods := methods ce @ []\<rparr> \<and> (\<forall>m \<in> set []. B (FunctionEntity m))"
    by simp
  then have "\<exists>ms. ce = ce\<lparr>methods := methods ce @ ms\<rparr> \<and> (\<forall>m \<in> set ms. B (FunctionEntity m))"
    by (rule exI)
  with Nil show ?case
    using rel_refl [OF assms(1)] by auto
next
  case (Cons item items)
  show ?case
  proof (cases "is_FunctionDef item")
    case False
    have rest: "\<forall>item \<in> set items. is_FunctionDef item \<longrightarrow> item \<in> set (declarations module_ast)"
      using Cons.prems(1) by simp
    have run: "process_methods lib fp fc cn items ce self = (r, self')"
      using Cons.prems(2) False by simp
    show ?thesis
      by (rule Cons.IH [OF rest run])
  next
    case True
    show ?thesis
    proof (cases "process_function lib fp fc item")
      case (Inl e)
      with True Cons.prems show ?thesis
        using rel_refl [OF assms(1)] by auto
    next
      case (Inr meth)
      define q where "q = cn @ ''.'' @ node_name item"
      define me where "me = meth\<lparr>name := q\<rparr>"
      define self1 where
        "self1 = self\<lparr>all_entities := dict_set q (FunctionEntity me) (all_entities self)\<rparr>"
      have decl: "item \<in> set (declarations module_ast)"
        using True Cons.prems(1) by simp
      have Bme: "B (FunctionEntity me)"
        unfolding me_def by (rule assms(2)) (rule built_from_function [OF Inr decl])
      have nm: "name me = q"
        by (simp add: me_def)
      have step: "R self self1"
        unfolding self1_def by (rule rel_put [OF assms(1)]) (simp_all add: Bme nm)
      have run: "process_methods lib fp fc cn items (ce\<lparr>methods := methods ce @ [me]\<rparr>) self1
                 = (r, self')"
        using Cons.prems(2) True Inr by (simp add: Let_def q_def me_def self1_def)
      have rest: "\<forall>item \<in> set items. is_FunctionDef item \<longrightarrow> item \<in> set (declarations module_ast)"
        using Cons.prems(1) by simp
      from Cons.IH [OF rest run]
      have IH1: "R self1 self'"
        and IH2: "\<forall>ce'. r = Inr ce' \<longrightarrow>
             (\<exists>ms. ce' = ce\<lparr>methods := methods ce @ [me]\<rparr>
                             \<lparr>methods := methods (ce\<lparr>methods := methods ce @ [me]\<rparr>) @ ms\<rparr>
                    \<and> (\<forall>m \<in> set ms. B (FunctionEntity m)))"
        by blast+
      have "R self self'"
        by (rule rel_trans [OF assms(1) step IH1])
      moreover have "\<exists>ms. ce' = ce\<lparr>methods := methods ce @ ms\<rparr> \<and> (\<forall>m \<in> set ms. B (FunctionEntity m))"
        if "r = Inr ce'" for ce'
      proof -
        from IH2 that obtain ms where
          ms: "ce' = ce\<lparr>methods := methods ce @ [me]\<rparr>
                       \<lparr>methods := methods (ce\<lparr>methods := methods ce @ [me]\<rparr>) @ ms\<rparr>"
          "\<forall>m \<in> set ms. B (FunctionEntity m)"
          by blast
        have "ce' = ce\<lparr>methods := methods ce @ (me # ms)\<rparr>"
          using ms(1) by simp
        moreover have "\<forall>m \<in> set (me # ms). B (FunctionEntity m)"
          using ms(2) Bme by simp
        ultimately show ?thesis by blast
      qed
      ultimately show ?thesis by blast
    qed
  qed
qed


lemma class_in_declarations:
  "node \<in> set (node_body module_ast) \<Longrightarrow> is_ClassDef node
     \<Longrightarrow> node \<in> set (declarations module_ast)"
  by (auto simp: declarations_def)

lemma method_in_declarations:
  "node \<in> set (node_body module_ast) \<Longrightarrow> is_ClassDef node \<Longrightarrow> item \<in> set (node_body node)
     \<Longrightarrow> is_FunctionDef item \<Longrightarrow> item \<in> set (declarations module_ast)"
  by (auto simp: declarations_def)

lemma function_in_declarations:
  "node \<in> set (node_body module_ast) \<Longrightarrow> is_FunctionDef node
     \<Longrightarrow> node \<in> set (declarations module_ast)"
  by (auto simp: declarations_def)

lemma process_class_rel:
  assumes "pass_relation B R"
    and "\<And>x. built_from lib fc module_ast x \<Longrightarrow> B x"
    and "node \<in> set (node_body module_ast)"
    and "process_class lib fp fc node self = (r, self')"
  shows "R self self'
       \<and> (\<forall>ce. r = Inr ce \<longrightarrow>
             name ce = node_name node \<and> (\<forall>x \<in> set (sub_entities (ClassEntity ce)). B x))"
proof (cases "is_ClassDef node")
  case False
  then have "process_class lib fp fc node self = (Inl AttributeError, self)"
    by (cases node) simp_all
  with assms(4) show ?thesis
    using rel_refl [OF assms(1)] by auto
next
  case True
  then obtain l n bases kws body decos tparams where
    node: "node = ClassDef l n bases kws body decos tparams"
    by (cases node) simp_all
  show ?thesis
  proof (cases "find_node_end node")
    case None
    with assms(4) node show ?thesis
      using rel_refl [OF assms(1)] by auto
  next
    case (Some class_end)
    define ce0 where
      "ce0 = new_class_entity lib n (relpath fp) l class_end (get_docstring (cleandoc lib) node)
               (Some (str_join [LF] (py_slice (splitlines fc) (l - 1) class_end)))
               (map get_name_from_expr bases)"
    have run: "process_methods lib fp fc n body ce0 self = (r, self')"
      using assms(4) Some unfolding node ce0_def by (simp add: Let_def)
    have items: "\<forall>item \<in> set body. is_FunctionDef item \<longrightarrow> item \<in> set (declarations module_ast)"
      using method_in_declarations [OF assms(3) True] by (simp add: node)
    from process_methods_rel [OF assms(1) assms(2) items run]
    have R: "R self self'"
      and ms: "\<And>ce. r = Inr ce \<Longrightarrow>
                \<exists>ms. ce = ce0\<lparr>methods := methods ce0 @ ms\<rparr> \<and> (\<forall>m \<in> set ms. B (FunctionEntity m))"
      by blast+
    have "name ce = node_name node \<and> (\<forall>x \<in> set (sub_entities (ClassEntity ce)). B x)"
      if "r = Inr ce" for ce
    proof -
      from ms [OF that] obtain ms where
        ce: "ce = ce0\<lparr>methods := methods ce0 @ ms\<rparr>" and Bms: "\<forall>m \<in> set ms. B (FunctionEntity m)"
        by blast
      have m0: "methods ce0 = []" and ls: "line_start ce0 = l" and le: "line_end ce0 = class_end"
        and nm: "name ce0 = n" and h: "hash ce0 = content_hash lib (code_snippet ce0)"
        by (simp_all add: ce0_def new_class_entity_def post_init_def content_hash_def)
      have "lineno node = Some l"
        by (simp add: node)
      with Some have "\<exists>d \<in> set (declarations module_ast).
                        lineno d = Some l \<and> find_node_end d = Some class_end"
        using class_in_declarations [OF assms(3) True] by blast
      then have "built_from lib fc module_ast (ClassEntity ce)"
        by (simp add: built_from_def ce ls le h list_ex_iff)
      then have "B (ClassEntity ce)"
        by (rule assms(2))
      then show ?thesis
        using Bms by (auto simp: ce nm m0 node)
    qed
    with R show ?thesis by blast
  qed
qed

lemma index_body_rel:
  assumes "pass_relation B R"
    and "\<And>x. built_from lib fc module_ast x \<Longrightarrow> B x"
    and "set nodes \<subseteq> set (node_body module_ast)"
    and "index_body lib fp fc nodes module self = (r, self')"
  shows "R self self'
       \<and> (\<forall>m'. r = Inr m' \<longrightarrow>
             (\<exists>fs cs. m' = module\<lparr>functions := functions module @ fs,
                                    classes := classes module @ cs\<rparr>
                \<and> (\<forall>f \<in> set fs. B (FunctionEntity f))
                \<and> (\<forall>c \<in> set cs. \<forall>x \<in> set (sub_entities (ClassEntity c)). B x)))"
  using assms(3,4)
proof (induction nodes arbitrary: module self)
  case Nil
  have "module = module\<lparr>functions := functions module @ [], classes := classes module @ []\<rparr>
        \<and> (\<forall>f \<in> set []. B (FunctionEntity f))
        \<and> (\<forall>c \<in> set []. \<forall>x \<in> set (sub_entities (ClassEntity c)). B x)"
    by simp
  then have "\<exists>fs cs. module = module\<lparr>functions := functions module @ fs,
                                       classes := classes module @ cs\<rparr>
        \<and> (\<forall>f \<in> set fs. B (FunctionEntity f))
        \<and> (\<forall>c \<in> set cs. \<forall>x \<in> set (sub_entities (ClassEntity c)). B x)"
    by blast
  with Nil show ?case
    using rel_refl [OF assms(1)] by auto
next
  case (Cons node rest)
  have node_in: "node \<in> set (node_body module_ast)"
    and rest_in: "set rest \<subseteq> set (node_body module_ast)"
    using Cons.prems(1) by simp_all
  consider (cls) "is_ClassDef node" | (fn) "\<not> is_ClassDef node" "is_FunctionDef node"
    | (other) "\<not> is_ClassDef node" "\<not> is_FunctionDef node"
    by blast
  then show ?case
  proof cases
    case other
    then have run: "index_body lib fp fc rest module self = (r, self')"
      using Cons.prems(2) by simp
    show ?thesis
      by (rule Cons.IH [OF rest_in run])
  next
    case cls
    obtain rc self1 where pc: "process_class lib fp fc node self = (rc, self1)"
      by (cases "process_class lib fp fc node self")
    from process_class_rel [OF assms(1) assms(2) node_in pc]
    have R1: "R self self1"
      and Bc: "\<And>ce. rc = Inr ce \<Longrightarrow>
                 name ce = node_name node \<and> (\<forall>x \<in> set (sub_entities (ClassEntity ce)). B x)"
      by blast+
    show ?thesis
    proof (cases rc)
      case (Inl e)
      with Cons.prems(2) cls pc have "r = Inl e" "self' = self1"
        by simp_all
      with R1 show ?thesis by simp
    next
      case (Inr ce)
      define self2 where
        "self2 = self1\<lparr>all_entities := dict_set (name ce) (ClassEntity ce) (all_entities self1)\<rparr>"
      have Bce: "\<forall>x \<in> set (sub_entities (ClassEntity ce)). B x"
        using Bc [OF Inr] by blast
      have R2: "R self1 self2"
        unfolding self2_def by (rule rel_put [OF assms(1) Bce]) simp
      have run: "index_body lib fp fc rest (module\<lparr>classes := classes module @ [ce]\<rparr>) self2
                 = (r, self')"
        using Cons.prems(2) cls pc Inr by (simp add: self2_def)
      from Cons.IH [OF rest_in run]
      have R3: "R self2 self'"
        and IH2: "\<And>m'. r = Inr m' \<Longrightarrow>
             (\<exists>fs cs. m' = module\<lparr>classes := classes module @ [ce]\<rparr>
                     \<lparr>functions := functions (module\<lparr>classes := classes module @ [ce]\<rparr>) @ fs,
                      classes := classes (module\<lparr>classes := classes module @ [ce]\<rparr>) @ cs\<rparr>
                \<and> (\<forall>f \<in> set fs. B (FunctionEntity f))
                \<and> (\<forall>c \<in> set cs. \<forall>x \<in> set (sub_entities (ClassEntity c)). B x))"
        by blast+
      have "R self self'"
        by (rule rel_trans [OF assms(1) R1 rel_trans [OF assms(1) R2 R3]])
      moreover have "\<exists>fs cs. m' = module\<lparr>functions := functions module @ fs,
                                         classes := classes module @ cs\<rparr>
                \<and> (\<forall>f \<in> set fs. B (FunctionEntity f))
                \<and> (\<forall>c \<in> set cs. \<forall>x \<in> set (sub_entities (ClassEntity c)). B x)"
        if "r = Inr m'" for m'
      proof -
        from IH2 [OF that] obtain fs cs where
          m': "m' = module\<lparr>classes := classes module @ [ce]\<rparr>
                     \<lparr>functions := functions (module\<lparr>classes := classes module @ [ce]\<rparr>) @ fs,
                      classes := classes (module\<lparr>classes := classes module @ [ce]\<rparr>) @ cs\<rparr>"
          and Bfs: "\<forall>f \<in> set fs. B (FunctionEntity f)"
          and Bcs: "\<forall>c \<in> set cs. \<forall>x \<in> set (sub_entities (ClassEntity c)). B x"
          by blast
        have "m' = module\<lparr>functions := functions module @ fs,
                          classes := classes module @ (ce # cs)\<rparr>"
          using m' by simp
        moreover have "\<forall>c \<in> set (ce # cs). \<forall>x \<in> set (sub_entities (ClassEntity c)). B x"
          using Bcs Bce by simp
        ultimately show ?thesis
          using Bfs by blast
      qed
      ultimately show ?thesis by blast
    qed
  next
    case fn
    show ?thesis
    proof (cases "process_function lib fp fc node")
      case (Inl e)
      with Cons.prems(2) fn have "r = Inl e" "self' = self"
        by simp_all
      then show ?thesis
        using rel_refl [OF assms(1)] by simp
    next
      case (Inr fe)
      define self1 where
        "self1 = self\<lparr>all_entities := dict_set (name fe) (FunctionEntity fe) (all_entities self)\<rparr>"
      have "built_from lib fc module_ast (FunctionEntity (fe\<lparr>name := name fe\<rparr>))"
        by (rule built_from_function [OF Inr function_in_declarations [OF node_in fn(2)]])
      then have Bfe: "B (FunctionEntity fe)"
        using assms(2) by simp
      have R1: "R self self1"
        unfolding self1_def by (rule rel_put [OF assms(1)]) (simp_all add: Bfe)
      have run: "index_body lib fp fc rest (module\<lparr>functions := functions module @ [fe]\<rparr>) self1
                 = (r, self')"
        using Cons.prems(2) fn Inr by (simp add: self1_def)
      from Cons.IH [OF rest_in run]
      have R2: "R self1 self'"
        and IH2: "\<And>m'. r = Inr m' \<Longrightarrow>
             (\<exists>fs cs. m' = module\<lparr>functions := functions module @ [fe]\<rparr>
                     \<lparr>functions := functions (module\<lparr>functions := functions module @ [fe]\<rparr>) @ fs,
                      classes := classes (module\<lparr>functions := functions module @ [fe]\<rparr>) @ cs\<rparr>
                \<and> (\<forall>f \<in> set fs. B (FunctionEntity f))
                \<and> (\<forall>c \<in> set cs. \<forall>x \<in> set (sub_entities (ClassEntity c)). B x))"
        by blast+
      have "R self self'"
        by (rule rel_trans [OF assms(1) R1 R2])
      moreover have "\<exists>fs cs. m' = module\<lparr>functions := functions module @ fs,
                                         classes := classes module @ cs\<rparr>
                \<and> (\<forall>f \<in> set fs. B (FunctionEntity f))
                \<and> (\<forall>c \<in> set cs. \<forall>x \<in> set (sub_entities (ClassEntity c)). B x)"
        if "r = Inr m'" for m'
      proof -
        from IH2 [OF that] obtain fs cs where
          m': "m' = module\<lparr>functions := functions module @ [fe]\<rparr>
                     \<lparr>functions := functions (module\<lparr>functions := functions module @ [fe]\<rparr>) @ fs,
                      classes := classes (module\<lparr>functions := functions module @ [fe]\<rparr>) @ cs\<rparr>"
          and Bfs: "\<forall>f \<in> set fs. B (FunctionEntity f)"
          and Bcs: "\<forall>c \<in> set cs. \<forall>x \<in> set (sub_entities (ClassEntity c)). B x"
          by blast
        have "m' = module\<lparr>functions := functions module @ (fe # fs),
                          classes := classes module @ cs\<rparr>"
          using m' by simp
        moreover have "\<forall>f \<in> set (fe # fs). B (FunctionEntity f)"
          using Bfs Bfe by simp
        ultimately show ?thesis
          using Bcs by blast
      qed
      ultimately show ?thesis by blast
    qed
  qed
qed

lemma index_parsed_rel:
  assumes "pass_relation B R"
    and "\<And>module_ast x. ast_parse lib fc = Inr module_ast \<Longrightarrow> built_from lib fc module_ast x \<Longrightarrow> B x"
  shows "R self (snd (index_parsed lib fp fc self))"
proof (cases "ast_parse lib fc")
  case (Inl e)
  then show ?thesis
    using rel_refl [OF assms(1)] by (simp add: index_parsed_def)
next
  case (Inr module_ast)
  define mname where "mname = splitext_root (basename fp)"
  define m0 where
    "m0 = (new_module_entity lib mname (relpath fp) 1 (int (length (splitlines fc)))
             (get_docstring (cleandoc lib) module_ast) (Some fc))
          \<lparr>imports := extract_imports module_ast\<rparr>"
  have B: "\<And>x. built_from lib fc module_ast x \<Longrightarrow> B x"
    by (rule assms(2) [OF Inr])
  obtain r self1 where ib: "index_body lib fp fc (node_body module_ast) m0 self = (r, self1)"
    by (cases "index_body lib fp fc (node_body module_ast) m0 self")
  from index_body_rel [OF assms(1) B subset_refl ib]
  have R1: "R self self1"
    and ms: "\<And>m'. r = Inr m' \<Longrightarrow>
             (\<exists>fs cs. m' = m0\<lparr>functions := functions m0 @ fs, classes := classes m0 @ cs\<rparr>
                \<and> (\<forall>f \<in> set fs. B (FunctionEntity f))
                \<and> (\<forall>c \<in> set cs. \<forall>x \<in> set (sub_entities (ClassEntity c)). B x))"
    by blast+
  show ?thesis
  proof (cases r)
    case (Inl e)
    then have "snd (index_parsed lib fp fc self) = self1"
      using Inr ib by (simp add: index_parsed_def Let_def mname_def m0_def)
    with R1 show ?thesis by simp
  next
    case (Inr m')
    from ms [OF Inr] obtain fs cs where
      m': "m' = m0\<lparr>functions := functions m0 @ fs, classes := classes m0 @ cs\<rparr>"
      and Bfs: "\<forall>f \<in> set fs. B (FunctionEntity f)"
      and Bcs: "\<forall>c \<in> set cs. \<forall>x \<in> set (sub_entities (ClassEntity c)). B x"
      by blast
    have f0: "functions m0 = []" and c0: "classes m0 = []" and nm: "name m0 = mname"
      and ls: "line_start m0 = 1" and le: "line_end m0 = int (length (splitlines fc))"
      and h: "hash m0 = content_hash lib (code_snippet m0)"
      by (simp_all add: m0_def new_module_entity_def post_init_def content_hash_def)
    have "built_from lib fc module_ast (ModuleEntity m')"
      by (simp add: built_from_def m' ls le h)
    then have "B (ModuleEntity m')"
      by (rule B)
    then have Bm: "\<forall>x \<in> set (sub_entities (ModuleEntity m')). B x"
      using Bfs Bcs by (auto simp: m' f0 c0)
    define self2 where "self2 = self1\<lparr>modules := dict_set mname m' (modules self1)\<rparr>"
    define self3 where
      "self3 = self2\<lparr>all_entities := dict_set mname (ModuleEntity m') (all_entities self2)\<rparr>"
    have nm': "name m' = mname"
      by (simp add: m' nm)
    have R2: "R self1 self2"
      unfolding self2_def by (rule rel_put_module [OF assms(1) Bm]) (simp add: nm')
    have R3: "R self2 self3"
      unfolding self3_def by (rule rel_put [OF assms(1) Bm]) (simp add: nm')
    have "snd (index_parsed lib fp fc self) = self3"
      using \<open>ast_parse lib fc = Inr module_ast\<close> ib Inr
      by (simp add: index_parsed_def Let_def mname_def m0_def self3_def self2_def)
    moreover have "R self self3"
      by (rule rel_trans [OF assms(1) R1 rel_trans [OF assms(1) R2 R3]])
    ultimately show ?thesis by simp
  qed
qed

lemma index_file_rel:
  assumes "pass_relation B R"
    and "\<And>fc module_ast x. read_file fs p = Inr fc \<Longrightarrow> ast_parse lib fc = Inr module_ast
           \<Longrightarrow> built_from lib fc module_ast x \<Longrightarrow> B x"
  shows "R self (snd (index_file lib fs p self))"
proof (cases "read_file fs p")
  case (Inl e)
  then show ?thesis
    using rel_refl [OF assms(1)] by (simp add: index_file_def)
next
  case (Inr fc)
  have "R self (snd (index_parsed lib p fc self))"
    by (rule index_parsed_rel [OF assms(1)]) (rule assms(2) [OF Inr])
  moreover have "snd (index_file lib fs p self) = snd (index_parsed lib p fc self)"
    using Inr by (auto simp: index_file_def split: prod.splits option.splits exn.splits)
  ultimately show ?thesis by simp
qed

lemma index_files_step:
  "index_files lib fs (p # ps) self = index_files lib fs ps (snd (index_file lib fs p self))"
  by (auto split: prod.splits option.splits)

lemma index_files_rel:
  assumes "pass_relation B R"
    and "\<And>x. built_in_pass lib fs ps x \<Longrightarrow> B x"
  shows "R self (index_files lib fs ps self)"
  using assms(2)
proof (induction ps arbitrary: self)
  case Nil
  show ?case
    using rel_refl [OF assms(1)] by simp
next
  case (Cons p ps)
  have here: "R self (snd (index_file lib fs p self))"
  proof (rule index_file_rel [OF assms(1)])
    fix fc module_ast x
    assume "read_file fs p = Inr fc" "ast_parse lib fc = Inr module_ast"
      "built_from lib fc module_ast x"
    then have "built_in_pass lib fs (p # ps) x"
      by (auto simp: built_in_pass_def)
    then show "B x"
      by (rule Cons.prems)
  qed
  have "R (snd (index_file lib fs p self)) (index_files lib fs ps (snd (index_file lib fs p self)))"
  proof (rule Cons.IH)
    fix x
    assume "built_in_pass lib fs ps x"
    then have "built_in_pass lib fs (p # ps) x"
      by (auto simp: built_in_pass_def)
    then show "B x"
      by (rule Cons.prems)
  qed
  with here show ?case
    unfolding index_files_step by (rule rel_trans [OF assms(1)])
qed

lemma index_codebase_rel:
  assumes "pass_relation B R"
    and "\<And>x. built_in_pass lib fs (find_python_files lib fs self) x \<Longrightarrow> B x"
  shows "R self (index_codebase lib fs self)"
  unfolding index_codebase_def by (rule index_files_rel [OF assms])


lemma set_dict_set: "set (dict_set k v d) \<subseteq> insert (k, v) (set d)"
  by (induction d) auto

lemma dict_values_set: "set (dict_values (dict_set k v d)) \<subseteq> insert v (set (dict_values d))"
  using set_dict_set [of k v d] by (force simp: dict_values_def)


lemma dict_get_keys: "dict_get d k \<noteq> None \<longleftrightarrow> k \<in> set (dict_keys d)"
  by (simp add: dict_get_def dict_keys_def map_of_eq_None_iff)

lemma index_entities_put:
  "set (index_entities (s\<lparr>all_entities := dict_set k e (all_entities s)\<rparr>))
     \<subseteq> set (sub_entities e) \<union> set (index_entities s)"
  using dict_values_set [of k e "all_entities s"] by (fastforce simp: index_entities_def)

lemma index_entities_put_module:
  "set (index_entities (s\<lparr>modules := dict_set k m (modules s)\<rparr>))
     \<subseteq> set (sub_entities (ModuleEntity m)) \<union> set (index_entities s)"
proof -
  have "set (map ModuleEntity (dict_values (dict_set k m (modules s))))
          \<subseteq> insert (ModuleEntity m) (set (map ModuleEntity (dict_values (modules s))))"
    using dict_values_set [of k m "modules s"] by auto
  then show ?thesis
    by (fastforce simp: index_entities_def)
qed

lemma provenance_relation:
  "pass_relation B (\<lambda>s s'. \<forall>x \<in> set (index_entities s'). x \<in> set (index_entities s) \<or> B x)"
  unfolding pass_relation_def
proof (intro conjI allI impI)
  fix s e
  assume "\<forall>x \<in> set (sub_entities e). B x"
  then show "\<forall>x \<in> set (index_entities (s\<lparr>all_entities := dict_set (e_name e) e (all_entities s)\<rparr>)).
               x \<in> set (index_entities s) \<or> B x"
    using index_entities_put [where s = s and k = "e_name e" and e = e] by blast
next
  fix s m
  assume "\<forall>x \<in> set (sub_entities (ModuleEntity m)). B x"
  then show "\<forall>x \<in> set (index_entities (s\<lparr>modules := dict_set (name m) m (modules s)\<rparr>)).
               x \<in> set (index_entities s) \<or> B x"
    using index_entities_put_module [where s = s and k = "name m" and m = m] by blast
qed blast+

lemma index_codebase_provenance:
  assumes "x \<in> set (index_entities (index_codebase lib fs self))"
  shows "x \<in> set (index_entities self) \<or> built_in_pass lib fs (find_python_files lib fs self) x"
  using index_codebase_rel [OF provenance_relation, of lib fs self "built_in_pass lib fs (find_python_files lib fs self)"] assms
  by blast

lemma keys_named_relation:
  "pass_relation (\<lambda>x. True) (\<lambda>s s'. keys_named s \<longrightarrow> keys_named s')"
  unfolding pass_relation_def
proof (intro conjI allI impI)
  fix s e
  assume "keys_named s"
  then show "keys_named (s\<lparr>all_entities := dict_set (e_name e) e (all_entities s)\<rparr>)"
    using set_dict_set [of "e_name e" e "all_entities s"]
    by (fastforce simp: keys_named_def list_all_iff)
next
  fix s m
  assume "keys_named s"
  then show "keys_named (s\<lparr>modules := dict_set (name m) m (modules s)\<rparr>)"
    by (simp add: keys_named_def)
qed simp_all

lemma index_codebase_keys_named:
  "keys_named self \<Longrightarrow> keys_named (index_codebase lib fs self)"
  using index_codebase_rel [OF keys_named_relation, of lib fs self] by blast

subsection \<open>Relationships\<close>

lemma reachable_keys_named: "reachable lib self \<Longrightarrow> keys_named self"
  by (induction rule: reachable.induct)
     (simp_all add: keys_named_def new_code_indexer_def index_codebase_keys_named [unfolded keys_named_def])

lemma usage_loop_names:
  assumes "x \<in> set (rel_uses (usage_loop entity sn others rel))
             \<union> set (rel_used_by (usage_loop entity sn others rel))"
  shows "x \<in> set (rel_uses rel) \<union> set (rel_used_by rel) \<or> x \<noteq> e_name entity"
  using assms
proof (induction others arbitrary: rel)
  case Nil
  then show ?case by simp
next
  case (Cons other others)
  show ?case
  proof (cases "e_name other = e_name entity")
    case True
    with Cons.prems have "x \<in> set (rel_uses (usage_loop entity sn others rel))
             \<union> set (rel_used_by (usage_loop entity sn others rel))"
      by simp
    then show ?thesis
      by (rule Cons.IH)
  next
    case False
    define rel1 where "rel1 = (if snippet_uses (e_code_snippet other) sn
                     then rel\<lparr>rel_used_by := rel_used_by rel @ [e_name other]\<rparr>
                     else rel)"
    define rel2 where "rel2 = (if snippet_uses (e_code_snippet entity) (simple_name_of (e_name other))
                     then rel1\<lparr>rel_uses := rel_uses rel1 @ [e_name other]\<rparr>
                     else rel1)"
    have step: "usage_loop entity sn (other # others) rel = usage_loop entity sn others rel2"
      using False by (simp add: rel1_def rel2_def Let_def)
    have grow: "set (rel_uses rel2) \<union> set (rel_used_by rel2)
            \<subseteq> set (rel_uses rel) \<union> set (rel_used_by rel) \<union> {e_name other}"
      by (auto simp: rel1_def rel2_def)
    from Cons.prems have "x \<in> set (rel_uses (usage_loop entity sn others rel2))
             \<union> set (rel_used_by (usage_loop entity sn others rel2))"
      unfolding step .
    then have "x \<in> set (rel_uses rel2) \<union> set (rel_used_by rel2) \<or> x \<noteq> e_name entity"
      by (rule Cons.IH)
    with grow False show ?thesis
      by auto
  qed
qed

text \<open>
  C10. In every indexer the program can hold, and for every name \<open>n\<close>, the lists \<open>uses\<close>
  and \<open>used_by\<close> of \<open>get_entity_relationships(n)\<close> do not contain \<open>n\<close>: the entity
  found under \<open>n\<close> is named \<open>n\<close>, the scan skips every entity of that name, and only
  names of scanned entities are appended.
\<close>

theorem relationships_exclude_self:
  assumes "reachable lib self"
  shows "n \<notin> set (rel_uses (get_entity_relationships self n))
       \<and> n \<notin> set (rel_used_by (get_entity_relationships self n))"
proof (cases "dict_get (all_entities self) n")
  case None
  then show ?thesis
    by (simp add: get_entity_relationships_def no_relationships_def)
next
  case (Some entity)
  then have "(n, entity) \<in> set (all_entities self)"
    by (simp add: dict_get_def map_of_SomeD)
  with reachable_keys_named [OF assms] have nm: "e_name entity = n"
    by (auto simp: keys_named_def list_all_iff)
  define rel where "rel = (case entity of
                        ModuleEntity m \<Rightarrow>
                          no_relationships
                            \<lparr>rel_imported_by :=
                               imported_by_loop (name m) (dict_values (modules self)),
                             rel_imports :=
                               imports_loop (imports m) (dict_keys (modules self))\<rparr>
                      | _ \<Rightarrow> no_relationships)"
  have empty: "rel_uses rel = []" "rel_used_by rel = []"
    by (simp_all add: rel_def no_relationships_def split: entity.splits)
  have eq: "get_entity_relationships self n
          = usage_loop entity (simple_name_of (e_name entity)) (dict_values (all_entities self)) rel"
    using Some by (simp add: get_entity_relationships_def rel_def Let_def)
  show ?thesis
    unfolding eq
    using usage_loop_names [of n entity "simple_name_of (e_name entity)" "dict_values (all_entities self)" rel]
    by (auto simp: empty nm)
qed

theorem relationships_exclude_self_witness:
  "''f'' \<notin> set (rel_uses (get_entity_relationships
       (index_codebase sample_lib [File ''calls.py'' (Inr src_calls)]
          (new_code_indexer sample_lib ''/srv'' (Some [''venv'']))) ''f''))
   \<and> ''f'' \<notin> set (rel_used_by (get_entity_relationships
       (index_codebase sample_lib [File ''calls.py'' (Inr src_calls)]
          (new_code_indexer sample_lib ''/srv'' (Some [''venv'']))) ''f''))"
  by (rule relationships_exclude_self [OF reachable.rebuilt [OF reachable.fresh]])


subsection \<open>The content hash\<close>

lemma built_from_hash: "built_from lib fc module_ast x \<Longrightarrow> e_hash x = content_hash lib (e_code_snippet x)"
  by (simp add: built_from_def)

lemma built_in_pass_hash: "built_in_pass lib fs ps x \<Longrightarrow> e_hash x = content_hash lib (e_code_snippet x)"
  by (auto simp: built_in_pass_def dest: built_from_hash)

lemma reachable_hashes:
  "reachable lib self \<Longrightarrow> x \<in> set (index_entities self)
     \<Longrightarrow> e_hash x = content_hash lib (e_code_snippet x)"
proof (induction arbitrary: x rule: reachable.induct)
  case (fresh root exclude)
  then show ?case
    by (simp add: index_entities_def new_code_indexer_def dict_values_def)
next
  case (rebuilt self fs)
  from index_codebase_provenance [OF rebuilt.prems] show ?case
    using rebuilt.IH built_in_pass_hash by blast
qed

text \<open>
  C8. In every indexer the program can hold, the hash of an entity (in an index, or
  held by an entity in an index) is the content hash of its snippet, a function of the
  snippet alone. So two entities with the same snippet have the same hash, whatever
  their files, their kinds and the passes that built them; and each constructor gives
  the empty hash when there is no snippet.
\<close>

theorem content_hash_pure:
  assumes "reachable lib s" and "x \<in> set (index_entities s)"
    and "reachable lib t" and "y \<in> set (index_entities t)"
    and "e_code_snippet x = e_code_snippet y"
  shows "e_hash x = content_hash lib (e_code_snippet x)
       \<and> e_hash x = e_hash y
       \<and> hash (new_function_entity lib n1 fp1 ls1 le1 doc1 None params rt) = []
       \<and> hash (new_class_entity lib n2 fp2 ls2 le2 doc2 None bases) = []
       \<and> hash (new_module_entity lib n3 fp3 ls3 le3 doc3 None) = []"
proof -
  have "e_hash x = content_hash lib (e_code_snippet x)"
    using assms(1,2) by (rule reachable_hashes)
  moreover have "e_hash y = content_hash lib (e_code_snippet y)"
    using assms(3,4) by (rule reachable_hashes)
  ultimately show ?thesis
    using assms(5)
    by (simp add: new_function_entity_def new_class_entity_def new_module_entity_def post_init_def)
qed

theorem content_hash_pure_witness:
  "e_hash (hd (index_entities (index_codebase sample_lib calls_tree sample_indexer)))
     = content_hash sample_lib
         (e_code_snippet (hd (index_entities (index_codebase sample_lib calls_tree sample_indexer))))
   \<and> e_hash (hd (index_entities (index_codebase sample_lib calls_tree sample_indexer)))
     = e_hash (hd (index_entities
         (index_codebase sample_lib calls_copy_tree
            (index_codebase sample_lib [] sample_indexer))))
   \<and> hash (new_function_entity sample_lib ''f'' ''a.py'' 1 1 None None [] None) = []
   \<and> hash (new_class_entity sample_lib ''C'' ''a.py'' 1 1 None None []) = []
   \<and> hash (new_module_entity sample_lib ''a'' ''a.py'' 1 1 None None) = []"
proof -
  have 1: "reachable sample_lib (index_codebase sample_lib calls_tree sample_indexer)"
    unfolding sample_indexer_def by (rule reachable.rebuilt [OF reachable.fresh])
  have 2: "hd (index_entities (index_codebase sample_lib calls_tree sample_indexer))
             \<in> set (index_entities (index_codebase sample_lib calls_tree sample_indexer))"
    by code_simp
  have 3: "reachable sample_lib
             (index_codebase sample_lib calls_copy_tree (index_codebase sample_lib [] sample_indexer))"
    unfolding sample_indexer_def
    by (rule reachable.rebuilt [OF reachable.rebuilt [OF reachable.fresh]])
  have 4: "hd (index_entities
              (index_codebase sample_lib calls_copy_tree (index_codebase sample_lib [] sample_indexer)))
             \<in> set (index_entities
              (index_codebase sample_lib calls_copy_tree (index_codebase sample_lib [] sample_indexer)))"
    by code_simp
  have 5: "e_code_snippet (hd (index_entities (index_codebase sample_lib calls_tree sample_indexer)))
         = e_code_snippet (hd (index_entities
              (index_codebase sample_lib calls_copy_tree
                 (index_codebase sample_lib [] sample_indexer))))"
    by code_simp
  show ?thesis
    by (rule content_hash_pure [OF 1 2 3 4 5])
qed


subsection \<open>A pass over an indexer that already holds entities\<close>






subsection \<open>Search\<close>

lemma search_loop_filter:
  "search_loop q etype es results
     = results @ filter (\<lambda>e. \<not> (truthy etype \<and> Some (e_entity_type e) \<noteq> etype)
                              \<and> (str_in q (lower (e_name e))
                                  \<or> field_matches q (e_docstring e)
                                  \<or> field_matches q (e_code_snippet e))) es"
  by (induction es arbitrary: results) auto

lemma field_matches_nonempty:
  "q \<noteq> [] \<Longrightarrow> field_matches q x = (case x of None \<Rightarrow> False | Some d \<Rightarrow> str_in q (lower d))"
  by (cases x) (auto simp: lower_def)

lemma lower_nonempty: "query \<noteq> [] \<Longrightarrow> lower query \<noteq> []"
  by (simp add: lower_def)

lemma distinct_keys_relation:
  "pass_relation (\<lambda>x. True)
     (\<lambda>s s'. distinct (dict_keys (all_entities s)) \<longrightarrow> distinct (dict_keys (all_entities s')))"
proof -
  have "distinct (dict_keys (dict_set k v d))" if "distinct (dict_keys d)"
    for k :: string and v :: entity and d
    using that by (induction d) (auto simp: dict_keys_def dest!: subsetD [OF set_dict_set])
  then show ?thesis
    by (simp add: pass_relation_def)
qed

lemma reachable_distinct_keys: "reachable lib self \<Longrightarrow> distinct (dict_keys (all_entities self))"
proof (induction rule: reachable.induct)
  case (fresh root exclude)
  show ?case by (simp add: new_code_indexer_def dict_keys_def)
next
  case (rebuilt self fs)
  then show ?case
    using index_codebase_rel [OF distinct_keys_relation, of lib fs self] by blast
qed

lemma reachable_distinct_values:
  assumes "reachable lib self"
  shows "distinct (dict_values (all_entities self))"
proof -
  have "map e_name (dict_values (all_entities self)) = dict_keys (all_entities self)"
    using reachable_keys_named [OF assms]
    by (auto simp: keys_named_def list_all_iff dict_values_def dict_keys_def)
  then have "distinct (map e_name (dict_values (all_entities self)))"
    using reachable_distinct_keys [OF assms] by simp
  then show ?thesis
    by (rule distinct_map [THEN iffD1, THEN conjunct1])
qed

text \<open>
  C7. For a non-empty query and a kind filter that is absent or a non-empty kind name,
  \<open>search_entities\<close> returns the entities of the global index that match (the filter,
  and the query in the name, the docstring or the snippet, without regard to case), in
  the order of the index; an entity that matches in several fields is one element of
  the index and so one element of the result, and in an indexer the program can hold
  no entity occurs twice in the result.
\<close>

theorem search_entities_exact:
  assumes "query \<noteq> []" and "etype \<noteq> Some []"
  shows "search_entities self query etype
           = filter (entity_matches query etype) (dict_values (all_entities self))
       \<and> (reachable lib self \<longrightarrow> distinct (search_entities self query etype))"
proof -
  have same: "(\<not> (truthy etype \<and> Some (e_entity_type e) \<noteq> etype)
                 \<and> (str_in (lower query) (lower (e_name e))
                     \<or> field_matches (lower query) (e_docstring e)
                     \<or> field_matches (lower query) (e_code_snippet e)))
              = entity_matches query etype e" for e
    using assms(2)
    by (cases etype)
       (auto simp: entity_matches_def field_matches_nonempty [OF lower_nonempty [OF assms(1)]])
  have "entity_matches query etype
          = (\<lambda>e. \<not> (truthy etype \<and> Some (e_entity_type e) \<noteq> etype)
                 \<and> (str_in (lower query) (lower (e_name e))
                     \<or> field_matches (lower query) (e_docstring e)
                     \<or> field_matches (lower query) (e_code_snippet e)))"
    by (rule ext) (simp only: same)
  then have eq: "search_entities self query etype
           = filter (entity_matches query etype) (dict_values (all_entities self))"
    by (simp add: search_entities_def search_loop_filter)
  then show ?thesis
    using reachable_distinct_values [of lib self] by simp
qed


theorem search_entities_exact_witness:
  "search_entities (index_codebase sample_lib calls_tree sample_indexer) ''G'' (Some ''function'')
     = filter (entity_matches ''G'' (Some ''function''))
         (dict_values (all_entities (index_codebase sample_lib calls_tree sample_indexer)))
   \<and> distinct (search_entities (index_codebase sample_lib calls_tree sample_indexer)
                  ''G'' (Some ''function''))"
proof -
  have 1: "''G'' \<noteq> []"
    by simp
  have 2: "Some ''function'' \<noteq> Some []"
    by simp
  have 3: "reachable sample_lib (index_codebase sample_lib calls_tree sample_indexer)"
    unfolding sample_indexer_def by (rule reachable.rebuilt [OF reachable.fresh])
  show ?thesis
    using search_entities_exact [OF 1 2, of "index_codebase sample_lib calls_tree sample_indexer" sample_lib] 3
    by blast
qed

lemma sample_search:
  "map e_name (search_entities (index_codebase sample_lib calls_tree sample_indexer) ''G'' (Some ''function''))
     = [''g'']
   \<and> map e_name (search_entities (index_codebase sample_lib calls_tree sample_indexer) ''F'' None)
     = [''f'', ''g'', ''calls'']"
  by code_simp

lemma search_entities_unmatched:
  assumes "\<not> list_ex (entity_matches query None) (dict_values (all_entities self))"
  shows "search_entities self query etype = []"
proof -
  have "\<not> (str_in (lower query) (lower (e_name e))
            \<or> field_matches (lower query) (e_docstring e)
            \<or> field_matches (lower query) (e_code_snippet e))"
    if "e \<in> set (dict_values (all_entities self))" for e
  proof -
    have no: "\<not> entity_matches query None e"
      using assms that by (auto simp: list_ex_iff)
    have "field_matches q x \<Longrightarrow> (case x of None \<Rightarrow> False | Some d \<Rightarrow> str_in q (lower d))" for q x
      by (cases x) auto
    with no show ?thesis
      by (auto simp: entity_matches_def)
  qed
  then show ?thesis
    by (simp add: search_entities_def search_loop_filter filter_empty_conv)
qed

text \<open>
  C6. The search route answers a request without \<open>q\<close>, or with an empty \<open>q\<close>, with
  status 400 and an error body; and a request with a non-empty \<open>q\<close> that matches no
  entity of the index, whatever the kind asked for, with status 200 and an empty
  sequence of code results.
\<close>

theorem search_route_rejects_empty:
  "((args_get args ''q'' = None \<or> args_get args ''q'' = Some [])
      \<longrightarrow> fst (search srv args) = 400 \<and> (\<exists>msg. snd (search srv args) = ErrorBody msg))
   \<and> (args_get args ''q'' = Some query \<and> query \<noteq> []
        \<and> \<not> list_ex (entity_matches query None) (dict_values (all_entities (code_indexer_of srv)))
      \<longrightarrow> (\<exists>docs. search srv args = (200, SearchBody [] docs)))"
proof (intro conjI impI)
  assume "args_get args ''q'' = None \<or> args_get args ''q'' = Some []"
  then show "fst (search srv args) = 400" and "\<exists>msg. snd (search srv args) = ErrorBody msg"
    by (auto simp: search_def)
next
  assume a: "args_get args ''q'' = Some query \<and> query \<noteq> []
        \<and> \<not> list_ex (entity_matches query None) (dict_values (all_entities (code_indexer_of srv)))"
  then have "search_entities (code_indexer_of srv) query (args_get args ''type'') = []"
    by (simp add: search_entities_unmatched)
  with a show "\<exists>docs. search srv args = (200, SearchBody [] docs)"
    by (simp add: search_def Let_def)
qed

theorem search_route_rejects_empty_witness:
  "fst (search sample_server []) = 400
   \<and> (\<exists>msg. snd (search sample_server []) = ErrorBody msg)
   \<and> fst (search sample_server [(''q'', [])]) = 400
   \<and> (\<exists>docs. search sample_server [(''q'', ''zebra''), (''type'', ''class'')]
                 = (200, SearchBody [] docs))"
proof -
  have 1: "args_get [] ''q'' = None \<or> args_get [] ''q'' = Some []"
    by (simp add: args_get_def)
  have 2: "args_get [(''q'', [])] ''q'' = None \<or> args_get [(''q'', [])] ''q'' = Some []"
    by (simp add: args_get_def)
  have 3: "args_get [(''q'', ''zebra''), (''type'', ''class'')] ''q'' = Some ''zebra'' \<and> ''zebra'' \<noteq> []
        \<and> \<not> list_ex (entity_matches ''zebra'' None)
              (dict_values (all_entities (code_indexer_of sample_server)))"
    by code_simp
  show ?thesis
    using search_route_rejects_empty [of "[]" sample_server]
          search_route_rejects_empty [of "[(''q'', [])]" sample_server]
          search_route_rejects_empty
            [of "[(''q'', ''zebra''), (''type'', ''class'')]" sample_server "''zebra''"]
          1 2 3
    by blast
qed

subsection \<open>Line spans\<close>

lemma find_mem: "List.find P xs = Some x \<Longrightarrow> x \<in> set xs \<and> P x"
  by (induction xs) (auto split: if_splits)







subsection \<open>Methods and their qualified names\<close>












end
